theory Spec2Isabelle
  imports Complex_Main
begin

section \<open>Accessibility route segmentation and scoring (frontend/app/components/map.tsx)\<close>

text \<open>
  The functions of \<^verbatim>\<open>map.tsx\<close> that segment a path, classify the chunks against the
  hazard list and score the route, and the report controller of the backend
  (\<^verbatim>\<open>backend/src/controllers/reports.js\<close>).

  A JavaScript \<^verbatim>\<open>number\<close> is modelled as a \<^typ>\<open>real\<close>: the arithmetic is the exact
  one, without rounding, NaN or infinities. A coordinate \<^verbatim>\<open>[number,number]\<close> is a pair
  \<open>(lat, lng)\<close>, read with \<^const>\<open>fst\<close> (index 0) and \<^const>\<open>snd\<close> (index 1).
\<close>

subsection \<open>Geometry\<close>

type_synonym coord = "real \<times> real"

text \<open>
  \<^verbatim>\<open>Math.atan2(y, x)\<close> of the JavaScript library, on real arguments: the angle of the
  point \<open>(x, y)\<close> in \<open>(-\<pi>, \<pi>]\<close>, and 0 at the origin.
\<close>

definition atan2 :: "real \<Rightarrow> real \<Rightarrow> real" where
  "atan2 y x =
     (if 0 < x then arctan (y / x)
      else if x < 0 then (if 0 \<le> y then arctan (y / x) + pi else arctan (y / x) - pi)
      else if 0 < y then pi / 2
      else if y < 0 then - (pi / 2)
      else 0)"

text \<open>
  \<^verbatim>\<open>
  function haversine(a:[number,number],b:[number,number]):number {
    const R=6371000, dLa=((b[0]-a[0])*Math.PI)/180, dLo=((b[1]-a[1])*Math.PI)/180;
    const la1=(a[0]*Math.PI)/180, la2=(b[0]*Math.PI)/180;
    const x=Math.sin(dLa/2)**2+Math.cos(la1)*Math.cos(la2)*Math.sin(dLo/2)**2;
    return R*2*Math.atan2(Math.sqrt(x),Math.sqrt(1-x));
  }
  \<close>
  On the reals \<open>x\<close> lies between 0 and 1 and both square roots are defined. In the
  program's doubles the sum can round to a value just above 1 for two nearly antipodal
  points, where \<^verbatim>\<open>Math.sqrt(1-x)\<close> and the distance are NaN; the definition does not
  show that, so nothing below is stated about the distance of such points.
\<close>

definition haversine :: "coord \<Rightarrow> coord \<Rightarrow> real" where
  "haversine a b =
     (let R = 6371000;
          dLa = ((fst b - fst a) * pi) / 180;
          dLo = ((snd b - snd a) * pi) / 180;
          la1 = (fst a * pi) / 180;
          la2 = (fst b * pi) / 180;
          x = (sin (dLa / 2))\<^sup>2 + cos la1 * cos la2 * (sin (dLo / 2))\<^sup>2
      in R * 2 * atan2 (sqrt x) (sqrt (1 - x)))"

subsection \<open>Types\<close>

text \<open>
  \<^verbatim>\<open>
  interface RouteSegment { coordinates:[number,number][]; accessibility:'safe'|'caution'|'hazard';
                           surface?:string; description?:string; }
  interface RouteResult { segments:RouteSegment[]; totalDistance:number; estimatedTime:number;
                          warnings:string[]; elevationProfile?:{distance:number;elevation:number}[]; }
  interface HazardPoint { lat:number;lng:number;type:'hazard'|'caution'|'info';
                          category:string;description:string;icon:string; }
  interface IssueReport { id:string;lat:number;lng:number;
                          type:'blocked_path'|'broken_ramp'|'pothole'|'wet_floor'|'no_elevator'|'other';
                          description:string;timestamp:string;photoDataUrl?:string; }
  \<close>
  The fields of the three interfaces share names, so each record prefixes its own.
  A string is a list of bytes; text outside ASCII is written as its UTF-8 encoding.
\<close>

datatype accessibility = Safe | Caution | Hazard

datatype hazard_type = T_hazard | T_caution | T_info

datatype issue_type = Blocked_path | Broken_ramp | Pothole | Wet_floor | No_elevator | Other

record RouteSegment =
  coordinates :: "coord list"
  accessibility :: accessibility
  surface :: "string option"
  description :: "string option"

record RouteResult =
  segments :: "RouteSegment list"
  totalDistance :: real
  estimatedTime :: real
  warnings :: "string list"
  elevationProfile :: "(real \<times> real) list option"

record HazardPoint =
  h_lat :: real
  h_lng :: real
  h_type :: hazard_type
  h_category :: string
  h_description :: string
  h_icon :: string

record IssueReport =
  r_id :: string
  r_lat :: real
  r_lng :: real
  r_type :: issue_type
  r_description :: string
  r_timestamp :: string
  r_photoDataUrl :: "string option"

fun issue_type_str :: "issue_type \<Rightarrow> string" where
  "issue_type_str Blocked_path = ''blocked_path''"
| "issue_type_str Broken_ramp = ''broken_ramp''"
| "issue_type_str Pothole = ''pothole''"
| "issue_type_str Wet_floor = ''wet_floor''"
| "issue_type_str No_elevator = ''no_elevator''"
| "issue_type_str Other = ''other''"

subsection \<open>The hazard catalog handed to the router\<close>

text \<open>
  In \<^verbatim>\<open>doRoute\<close>:
  \<^verbatim>\<open>
  const combined=[...aPoints,...reports.map(r=>({lat:r.lat,lng:r.lng,type:'hazard' as const,
                   category:r.type,icon:'<U+1F4CC>',description:r.description}))];
  \<close>
\<close>

definition reportHazard :: "IssueReport \<Rightarrow> HazardPoint" where
  "reportHazard r =
     \<lparr>h_lat = r_lat r, h_lng = r_lng r, h_type = T_hazard,
      h_category = issue_type_str (r_type r), h_description = r_description r,
      h_icon = [CHR 0xF0, CHR 0x9F, CHR 0x93, CHR 0x8C]\<rparr>"

definition combined :: "HazardPoint list \<Rightarrow> IssueReport list \<Rightarrow> HazardPoint list" where
  "combined aPoints reports = aPoints @ map reportHazard reports"

subsection \<open>Time estimate\<close>

text \<open>
  \<^verbatim>\<open>
  function estimateTime(dist:number,segs:RouteSegment[]):number {
    if(!segs.length) return dist/1.0;
    const n=segs.length, sr=segs.filter(s=>s.accessibility==='safe').length/n,
          cr=segs.filter(s=>s.accessibility==='caution').length/n,
          hr=segs.filter(s=>s.accessibility==='hazard').length/n;
    return dist/Math.max(sr*1.0+cr*0.65+hr*0.35,0.2);
  }
  \<close>
\<close>

definition estimateTime :: "real \<Rightarrow> RouteSegment list \<Rightarrow> real" where
  "estimateTime distance segs =
     (if length segs = 0 then distance / 1.0
      else
        let n = real (length segs);
            sr = real (length (filter (\<lambda>s. accessibility s = Safe) segs)) / n;
            cr = real (length (filter (\<lambda>s. accessibility s = Caution) segs)) / n;
            hr = real (length (filter (\<lambda>s. accessibility s = Hazard) segs)) / n
        in distance / max (sr * 1.0 + cr * 0.65 + hr * 0.35) 0.2)"

subsection \<open>Classification of a chunk\<close>

text \<open>
  \<^verbatim>\<open>
  function classifySeg(coords:[number,number][],hazards:HazardPoint[]):RouteSegment['accessibility'] {
    for(const h of hazards) for(const c of coords)
      if(haversine(c,[h.lat,h.lng])<30)
        return h.type==='hazard'?'hazard':h.type==='caution'?'caution':'safe';
    return 'safe';
  }
  \<close>
  \<open>scanCoords\<close> is the inner loop for one hazard: the tag it returns at the first
  coordinate within 30 m, or \<open>None\<close> when the loop ends without returning.
\<close>

fun scanCoords :: "HazardPoint \<Rightarrow> coord list \<Rightarrow> accessibility option" where
  "scanCoords h [] = None"
| "scanCoords h (c # cs) =
     (if haversine c (h_lat h, h_lng h) < 30
      then Some (if h_type h = T_hazard then Hazard
                 else if h_type h = T_caution then Caution else Safe)
      else scanCoords h cs)"

fun classifySeg :: "coord list \<Rightarrow> HazardPoint list \<Rightarrow> accessibility" where
  "classifySeg coords [] = Safe"
| "classifySeg coords (h # hs) =
     (case scanCoords h coords of
        Some tag \<Rightarrow> tag
      | None \<Rightarrow> classifySeg coords hs)"

subsection \<open>Segmentation and scoring\<close>

text \<open>
  \<^verbatim>\<open>Array.prototype.slice(a, b)\<close> for indices \<open>0 \<le> a\<close> and \<open>0 \<le> b\<close>: the elements
  from index \<open>a\<close> up to, not including, index \<open>b\<close>, as many as the array has.
\<close>

definition slice :: "'a list \<Rightarrow> nat \<Rightarrow> nat \<Rightarrow> 'a list" where
  "slice xs a b = take (b - a) (drop a xs)"

text \<open>The decimal digits a template literal prints for a non-negative integer.\<close>

fun showNat :: "nat \<Rightarrow> string" where
  "showNat n =
     (if n < 10 then [''0123456789'' ! n]
      else showNat (n div 10) @ [''0123456789'' ! (n mod 10)])"

declare showNat.simps [simp del]

text \<open>
  \<^verbatim>\<open>
  function buildResult(coords:[number,number][],dist:number,hazards:HazardPoint[]):RouteResult {
    const n=Math.min(10,Math.max(3,Math.floor(coords.length/5))), chunk=Math.ceil(coords.length/n);
    const segs:RouteSegment[]=[];
    for(let i=0;i<coords.length-1;i+=chunk){
      const sl=coords.slice(i,Math.min(i+chunk+1,coords.length));
      if(sl.length<2)continue;
      const acc=classifySeg(sl,hazards);
      segs.push({coordinates:sl,accessibility:acc,surface:acc==='safe'?'Paved':'Unknown',
        description:acc==='safe'?'Clear accessible path':acc==='caution'?'Proceed carefully'
                                                                        :'Accessibility barrier'});
    }
    const hc=segs.filter(s=>s.accessibility==='hazard').length,
          cc=segs.filter(s=>s.accessibility==='caution').length;
    const warns:string[]=[];
    if(hc) warns.push(`<U+26A0 U+FE0F> ${hc} accessibility barrier${hc>1?'s':''} on this route`);
    if(cc) warns.push(`<U+1F536> ${cc} caution area${cc>1?'s':''} <U+2014> proceed with care`);
    warns.push('Verify accessibility features on ground');
    return {segments:segs,totalDistance:dist,estimatedTime:estimateTime(dist,segs),warnings:warns,
      elevationProfile:coords.map((_,i)=>({distance:(i/coords.length)*dist,
                                           elevation:780+Math.sin(i*0.3)*15}))};
  }
  \<close>
  \<open>mkSegment\<close> is the object pushed for a slice. \<open>segLoop\<close> is the \<^verbatim>\<open>for\<close> loop, with
  the loop variable \<open>i\<close> and the array \<open>segs\<close> as arguments; the loop adds \<open>chunk\<close> to
  \<open>i\<close> and would not end for \<open>chunk = 0\<close>, so its result is an option and \<open>None\<close> stands
  for a loop that never returns.
\<close>

definition mkSegment :: "HazardPoint list \<Rightarrow> coord list \<Rightarrow> RouteSegment" where
  "mkSegment hazards sl =
     (let acc = classifySeg sl hazards
      in \<lparr>coordinates = sl, accessibility = acc,
          surface = Some (if acc = Safe then ''Paved'' else ''Unknown''),
          description = Some (if acc = Safe then ''Clear accessible path''
                              else if acc = Caution then ''Proceed carefully''
                              else ''Accessibility barrier'')\<rparr>)"

partial_function (option) segLoop ::
  "coord list \<Rightarrow> HazardPoint list \<Rightarrow> nat \<Rightarrow> nat \<Rightarrow> RouteSegment list \<Rightarrow> RouteSegment list option"
where
  "segLoop coords hazards chunk i segs =
     (if int i < int (length coords) - 1
      then
        (if length (slice coords i (min (i + chunk + 1) (length coords))) < 2
         then segLoop coords hazards chunk (i + chunk) segs
         else segLoop coords hazards chunk (i + chunk)
                (segs @ [mkSegment hazards (slice coords i (min (i + chunk + 1) (length coords)))]))
      else Some segs)"

definition hazardWarning :: "nat \<Rightarrow> string" where
  "hazardWarning hc =
     [CHR 0xE2, CHR 0x9A, CHR 0xA0, CHR 0xEF, CHR 0xB8, CHR 0x8F] @ '' '' @ showNat hc
       @ '' accessibility barrier'' @ (if hc > 1 then ''s'' else '''') @ '' on this route''"

definition cautionWarning :: "nat \<Rightarrow> string" where
  "cautionWarning cc =
     [CHR 0xF0, CHR 0x9F, CHR 0x94, CHR 0xB6] @ '' '' @ showNat cc
       @ '' caution area'' @ (if cc > 1 then ''s'' else '''') @ '' ''
       @ [CHR 0xE2, CHR 0x80, CHR 0x94] @ '' proceed with care''"

definition buildWarnings :: "RouteSegment list \<Rightarrow> string list" where
  "buildWarnings segs =
     (let hc = length (filter (\<lambda>s. accessibility s = Hazard) segs);
          cc = length (filter (\<lambda>s. accessibility s = Caution) segs)
      in (if hc \<noteq> 0 then [hazardWarning hc] else [])
         @ (if cc \<noteq> 0 then [cautionWarning cc] else [])
         @ [''Verify accessibility features on ground''])"

definition buildResult :: "coord list \<Rightarrow> real \<Rightarrow> HazardPoint list \<Rightarrow> RouteResult option" where
  "buildResult coords distance hazards =
     (let n = min 10 (max 3 (nat \<lfloor>real (length coords) / 5\<rfloor>));
          chunk = nat \<lceil>real (length coords) / real n\<rceil>
      in case segLoop coords hazards chunk 0 [] of
           None \<Rightarrow> None
         | Some segs \<Rightarrow>
             Some \<lparr>segments = segs, totalDistance = distance,
                   estimatedTime = estimateTime distance segs,
                   warnings = buildWarnings segs,
                   elevationProfile =
                     Some (map (\<lambda>i. ((real i / real (length coords)) * distance,
                                      780 + sin (real i * 0.3) * 15))
                             [0..<length coords])\<rparr>)"

subsection \<open>Routing with the fallback path\<close>

text \<open>
  \<^verbatim>\<open>
  async function calcRoute(start:L.LatLng,end:L.LatLng,hazards:HazardPoint[]):Promise<RouteResult> {
    try {
      const r=await fetch(`https://router.project-osrm.org/route/v1/foot/...`);
      if(!r.ok) throw new Error();
      const data=await r.json(); const route=data.routes?.[0]; if(!route) throw new Error();
      const coords:[number,number][]=route.geometry.coordinates.map((c:number[])=>[c[1],c[0]]);
      return buildResult(coords,route.distance,hazards);
    } catch {
      const coords:[number,number][]=[];
      const mid=(start.lat+end.lat)/2;
      for(let i=0;i<=12;i++){const t=i/12;coords.push([start.lat+(mid-start.lat)*t,start.lng]);}
      for(let i=0;i<=12;i++){const t=i/12;coords.push([mid,start.lng+(end.lng-start.lng)*t]);}
      coords.push([end.lat,end.lng]);
      return buildResult(coords,start.distanceTo(end)*1.25,hazards);
    }
  }
  \<close>
  The answer of the routing provider is an input: either the route it returned (its
  coordinates as \<open>[lng, lat]\<close> pairs, and its distance), or a failure, which stands for
  every way into the \<^verbatim>\<open>catch\<close> block (a rejected request, a response that is not ok, a
  body without a route).
\<close>

record LatLng =
  ll_lat :: real
  ll_lng :: real

datatype provider = ProviderRoute "(real \<times> real) list" real | ProviderFailure

text \<open>
  \<^verbatim>\<open>L.LatLng.distanceTo\<close> is Leaflet's, not this repository's. Leaflet computes it as
  \<^verbatim>\<open>Earth.distance\<close>:
  \<^verbatim>\<open>
  var rad = Math.PI / 180, lat1 = latlng1.lat * rad, lat2 = latlng2.lat * rad,
      sinDLat = Math.sin((latlng2.lat - latlng1.lat) * rad / 2),
      sinDLon = Math.sin((latlng2.lng - latlng1.lng) * rad / 2),
      a = sinDLat * sinDLat + Math.cos(lat1) * Math.cos(lat2) * sinDLon * sinDLon,
      c = 2 * Math.atan2(Math.sqrt(a), Math.sqrt(1 - a));
  return this.R * c;      // R: 6371000
  \<close>
\<close>

definition distanceTo :: "LatLng \<Rightarrow> LatLng \<Rightarrow> real" where
  "distanceTo latlng1 latlng2 =
     (let rad = pi / 180;
          lat1 = ll_lat latlng1 * rad;
          lat2 = ll_lat latlng2 * rad;
          sinDLat = sin ((ll_lat latlng2 - ll_lat latlng1) * rad / 2);
          sinDLon = sin ((ll_lng latlng2 - ll_lng latlng1) * rad / 2);
          a = sinDLat * sinDLat + cos lat1 * cos lat2 * sinDLon * sinDLon;
          c = 2 * atan2 (sqrt a) (sqrt (1 - a))
      in 6371000 * c)"

text \<open>
  One \<^verbatim>\<open>for(let i=0;i<=12;i++)\<close> loop of the fallback: it pushes the point \<open>f (i/12)\<close>
  for the loop variable \<open>i\<close> onto \<open>coords\<close>.
\<close>

function pushLeg :: "(real \<Rightarrow> coord) \<Rightarrow> nat \<Rightarrow> coord list \<Rightarrow> coord list" where
  "pushLeg f i coords =
     (if i \<le> 12 then pushLeg f (i + 1) (coords @ [f (real i / 12)]) else coords)"
  by pat_completeness auto
termination
  by (relation "measure (\<lambda>(f, i, coords). 13 - i)") auto

declare pushLeg.simps [simp del]

definition fallbackCoords :: "LatLng \<Rightarrow> LatLng \<Rightarrow> coord list" where
  "fallbackCoords start endp =
     (let mid = (ll_lat start + ll_lat endp) / 2;
          coords1 = pushLeg (\<lambda>t. (ll_lat start + (mid - ll_lat start) * t, ll_lng start)) 0 [];
          coords2 = pushLeg (\<lambda>t. (mid, ll_lng start + (ll_lng endp - ll_lng start) * t)) 0 coords1
      in coords2 @ [(ll_lat endp, ll_lng endp)])"

definition calcRoute ::
  "provider \<Rightarrow> LatLng \<Rightarrow> LatLng \<Rightarrow> HazardPoint list \<Rightarrow> RouteResult option" where
  "calcRoute answer start endp hazards =
     (case answer of
        ProviderRoute cs d \<Rightarrow> buildResult (map (\<lambda>c. (snd c, fst c)) cs) d hazards
      | ProviderFailure \<Rightarrow>
          buildResult (fallbackCoords start endp) (distanceTo start endp * 1.25) hazards)"

subsection \<open>Report creation (backend/src/controllers/reports.js)\<close>

text \<open>
  \<^verbatim>\<open>
  export const createReport = async (req, res) => {
    const { user_id, issue_type, description, lat, lng } = req.body;
    const photo = req.file;
    if (!issue_type || !description || !lat || !lng) {
      return res.status(400).json({ error: 'Missing required fields' });
    }
    try {
      const photo_url = photo ? photoService.getUrl(photo.filename) : null;
      const result = await pool.query(
        `INSERT INTO reports (...) VALUES ($1, $2, $3, $4,
           ST_SetSRID(ST_MakePoint($5, $6), 4326), true, NOW(), NOW() + INTERVAL '48 hours')
         RETURNING ...`,
        [user_id || null, issue_type, description, photo_url, lng, lat]);
      res.status(201).json({ report: result.rows[0] });
    } catch (err) {
      console.error('Report creation error:', err);
      res.status(500).json({ error: 'Failed to create report' });
    }
  };
  \<close>
  A field of the request body is a JavaScript value: absent (\<open>Undefined\<close>), \<open>null\<close>, a
  string (every field of a multipart form is one) or a number (in a JSON body). \<open>truthy\<close>
  is JavaScript's conversion to a boolean, whose negation is \<^verbatim>\<open>!v\<close>.

  The report store is the database behind \<^verbatim>\<open>pool.query\<close>. What the database does with a
  query is an input of the model (\<open>QueryRows\<close>: it returns the inserted row; \<open>QueryThrows\<close>:
  the promise is rejected); the handler's effect on the store is the list of the
  parameter arrays of the INSERT statements it issues.
\<close>

datatype jsval = Undefined | Null | JStr string | JNum real

fun truthy :: "jsval \<Rightarrow> bool" where
  "truthy Undefined = False"
| "truthy Null = False"
| "truthy (JStr s) = (s \<noteq> [])"
| "truthy (JNum x) = (x \<noteq> 0)"

record request =
  b_user_id :: jsval
  b_issue_type :: jsval
  b_description :: jsval
  b_lat :: jsval
  b_lng :: jsval
  file_filename :: "string option"

text \<open>The row the INSERT statement returns (its \<^verbatim>\<open>RETURNING\<close> columns).\<close>

record report_row =
  row_id :: nat
  row_issue_type :: string
  row_description :: string
  row_photo_url :: "string option"
  row_lng :: real
  row_lat :: real
  row_created_at :: string

datatype 'row query_outcome = QueryRows 'row | QueryThrows

datatype 'row body = ErrorBody string | ReportBody 'row

datatype 'row response = Response nat "'row body"

text \<open>
  \<^verbatim>\<open>
  getUrl: (filename) => { if (!filename) return null; return `/uploads/${filename}`; }
  \<close>
\<close>

definition getUrl :: "string \<Rightarrow> jsval" where
  "getUrl filename = (if filename = [] then Null else JStr (''/uploads/'' @ filename))"

definition createReport ::
  "request \<Rightarrow> report_row query_outcome \<Rightarrow> jsval list list \<times> report_row response" where
  "createReport req outcome =
     (if \<not> truthy (b_issue_type req) \<or> \<not> truthy (b_description req)
         \<or> \<not> truthy (b_lat req) \<or> \<not> truthy (b_lng req)
      then ([], Response 400 (ErrorBody ''Missing required fields''))
      else
        let photo_url = (case file_filename req of Some filename \<Rightarrow> getUrl filename | None \<Rightarrow> Null);
            params = [if truthy (b_user_id req) then b_user_id req else Null,
                      b_issue_type req, b_description req, photo_url, b_lng req, b_lat req]
        in case outcome of
             QueryRows row \<Rightarrow> ([params], Response 201 (ReportBody row))
           | QueryThrows \<Rightarrow> ([params], Response 500 (ErrorBody ''Failed to create report'')))"

subsection \<open>Notions the properties are stated with\<close>

text \<open>
  A hazard is \<open>near\<close> a chunk when some point of the chunk is less than 30 m from it;
  \<open>specTag\<close> is the tag the specification gives a near hazard: \<open>hazard\<close> for severity
  hazard, \<open>safe\<close> for severity info, \<open>caution\<close> otherwise.
\<close>

definition near :: "coord list \<Rightarrow> HazardPoint \<Rightarrow> bool" where
  "near coords h = (\<exists>c \<in> set coords. haversine c (h_lat h, h_lng h) < 30)"

definition specTag :: "HazardPoint \<Rightarrow> accessibility" where
  "specTag h =
     (if h_type h = T_hazard then Hazard else if h_type h = T_info then Safe else Caution)"

text \<open>
  The specification's chunk count \<open>n = clamp(floor(len/5), 3, 10)\<close> and chunk size
  \<open>ceil(len/n)\<close>, as functions of the length of the path.
\<close>

definition targetCount :: "nat \<Rightarrow> nat" where
  "targetCount len = min 10 (max 3 (nat \<lfloor>real len / 5\<rfloor>))"

definition chunkStride :: "nat \<Rightarrow> nat" where
  "chunkStride len = nat \<lceil>real len / real (targetCount len)\<rceil>"

text \<open>
  The slices the loop of \<open>buildResult\<close> takes from index \<open>i\<close> on, as a total function
  (the loop's index passes the end of the path when \<open>chunk\<close> is positive).
\<close>

function chunkSlices :: "'a list \<Rightarrow> nat \<Rightarrow> nat \<Rightarrow> 'a list list" where
  "chunkSlices coords chunk i =
     (if 0 < chunk \<and> i + 1 < length coords
      then slice coords i (min (i + chunk + 1) (length coords))
             # chunkSlices coords chunk (i + chunk)
      else [])"
  by pat_completeness auto
termination
  by (relation "measure (\<lambda>(coords, chunk, i). length coords - i)") auto

declare chunkSlices.simps [simp del]

text \<open>The segments \<open>buildResult\<close> makes of a path: one for each slice of its loop.\<close>

definition routeSegments :: "coord list \<Rightarrow> HazardPoint list \<Rightarrow> RouteSegment list" where
  "routeSegments coords hazards =
     map (mkSegment hazards) (chunkSlices coords (chunkStride (length coords)) 0)"

text \<open>
  Concatenating chunks in order: a chunk whose first point equals the last point joined
  so far contributes its points without that duplicated first point.
\<close>

definition appendChunk :: "'a list \<Rightarrow> 'a list \<Rightarrow> 'a list" where
  "appendChunk acc c =
     (if acc \<noteq> [] \<and> c \<noteq> [] \<and> last acc = hd c then acc @ tl c else acc @ c)"

definition joinChunks :: "'a list list \<Rightarrow> 'a list" where
  "joinChunks cs = foldl appendChunk [] cs"

text \<open>
  Decimal numerals: \<open>digitValue\<close> is the position of a character in \<open>0123456789\<close>,
  \<open>decimalValue\<close> the number a string of digits denotes, and \<open>isDecimal s n\<close> says that
  \<open>s\<close> is the decimal numeral of \<open>n\<close>: not empty, digits only, without a leading zero
  (but for \<open>0\<close> itself), of value \<open>n\<close>.
\<close>

definition digitValue :: "char \<Rightarrow> nat" where
  "digitValue c = length (takeWhile (\<lambda>d. d \<noteq> c) ''0123456789'')"

definition decimalValue :: "string \<Rightarrow> nat" where
  "decimalValue s = foldl (\<lambda>a c. 10 * a + digitValue c) 0 s"

definition isDecimal :: "string \<Rightarrow> nat \<Rightarrow> bool" where
  "isDecimal s n =
     (s \<noteq> [] \<and> list_all (\<lambda>c. c \<in> set ''0123456789'') s
      \<and> (hd s \<noteq> CHR ''0'' \<or> s = ''0'') \<and> decimalValue s = n)"

text \<open>The number of segments that carry a tag.\<close>

definition tagCount :: "accessibility \<Rightarrow> RouteSegment list \<Rightarrow> nat" where
  "tagCount tag segs = length (filter (\<lambda>s. accessibility s = tag) segs)"

text \<open>
  The share of the segments that carry a tag, by count, as \<open>estimateTime\<close> computes it
  for a non-empty list.
\<close>

definition tagRatio :: "accessibility \<Rightarrow> RouteSegment list \<Rightarrow> real" where
  "tagRatio tag segs =
     real (length (filter (\<lambda>s. accessibility s = tag) segs)) / real (length segs)"

definition speedFactor :: "RouteSegment list \<Rightarrow> real" where
  "speedFactor segs =
     tagRatio Safe segs * 1.0 + tagRatio Caution segs * 0.65 + tagRatio Hazard segs * 0.35"

subsection \<open>Concrete inputs\<close>

text \<open>The start and the end of the specification's fallback scenario.\<close>

definition kuStart :: LatLng where
  "kuStart = \<lparr>ll_lat = 27.6196, ll_lng = 85.5385\<rparr>"

definition kuEnd :: LatLng where
  "kuEnd = \<lparr>ll_lat = 27.6200, ll_lng = 85.5395\<rparr>"

text \<open>A path of two points, and a path of seven.\<close>

definition path2 :: "coord list" where
  "path2 = [(27.6196, 85.5385), (27.6200, 85.5395)]"

definition path7 :: "coord list" where
  "path7 = [(27.6196, 85.5385), (27.6197, 85.5385), (27.6198, 85.5385), (27.6199, 85.5385),
            (27.6200, 85.5385), (27.6200, 85.5390), (27.6200, 85.5395)]"

text \<open>
  The first entry of \<^verbatim>\<open>getKUAccessibilityPoints()\<close>, the ramp at the main gate
  (\<open>KU_CENTER\<close> plus \<open>(0.0010, 0.0005)\<close>), and a user's report of a broken ramp at the
  same place.
\<close>

definition gateRamp :: HazardPoint where
  "gateRamp = \<lparr>h_lat = 27.6206, h_lng = 85.5390, h_type = T_info, h_category = ''ramp'',
               h_description = ''Accessible ramp'', h_icon = [CHR 0xE2, CHR 0x99, CHR 0xBF]\<rparr>"

definition gateReport :: IssueReport where
  "gateReport = \<lparr>r_id = ''k3x9q2m1z'', r_lat = 27.6206, r_lng = 85.5390, r_type = Broken_ramp,
                 r_description = ''ramp surface broken'', r_timestamp = ''2026-02-01T08:00:00.000Z'',
                 r_photoDataUrl = None\<rparr>"

text \<open>
  Two hazards a quarter of the equator apart, and a path of ten points: nine at the
  first place, the last at the second.
\<close>

definition farCaution :: HazardPoint where
  "farCaution = \<lparr>h_lat = 0, h_lng = 90, h_type = T_caution, h_category = ''narrow_path'',
                 h_description = ''Narrow pathway'', h_icon = []\<rparr>"

definition originHazard :: HazardPoint where
  "originHazard = \<lparr>h_lat = 0, h_lng = 0, h_type = T_hazard, h_category = ''stairs'',
                   h_description = ''Stairs only'', h_icon = []\<rparr>"

text \<open>A path of two points at the place of \<open>originHazard\<close>.\<close>

definition originPath :: "coord list" where
  "originPath = [(0, 0), (0, 0)]"

text \<open>The segment \<open>buildResult\<close> makes of a chunk at the place of \<open>originHazard\<close>.\<close>

definition hazardSeg :: RouteSegment where
  "hazardSeg = mkSegment [originHazard] [(0, 0), (0, 0)]"

definition path10 :: "coord list" where
  "path10 = [(0, 0), (0, 0), (0, 0), (0, 0), (0, 0), (0, 0), (0, 0), (0, 0), (0, 0), (0, 90)]"

text \<open>A report request with the latitude \<^verbatim>\<open>"abc"\<close>, and one without a latitude.\<close>

definition abcRequest :: request where
  "abcRequest = \<lparr>b_user_id = Undefined, b_issue_type = JStr ''pothole'',
                  b_description = JStr ''deep pothole'', b_lat = JStr ''abc'',
                  b_lng = JStr ''85.5385'', file_filename = None\<rparr>"

definition noLatRequest :: request where
  "noLatRequest = \<lparr>b_user_id = Undefined, b_issue_type = JStr ''pothole'',
                    b_description = JStr ''deep pothole'', b_lat = Undefined,
                    b_lng = JStr ''85.5385'', file_filename = None\<rparr>"

section \<open>Properties\<close>

subsection \<open>Distances that can be computed exactly\<close>

lemma haversine_quarter: "haversine (0, 0) (0, 90) = 6371000 * (pi / 2)"
proof -
  have x: "(sin (pi / 4))\<^sup>2 = (1 / 2 :: real)"
    by (simp add: sin_45 power2_eq_square)
  have pos: "0 < sqrt (1 / 2 :: real)" by simp
  have at: "atan2 (sqrt (1 / 2)) (sqrt (1 / 2)) = pi / 4"
    unfolding atan2_def using pos by (simp add: arctan_one del: real_sqrt_gt_0_iff)
  have "haversine (0, 0) (0, 90) = 6371000 * 2 * atan2 (sqrt (1 / 2)) (sqrt (1 - 1 / 2))"
    unfolding haversine_def Let_def by (simp add: x)
  also have "\<dots> = 6371000 * (pi / 2)" using at by simp
  finally show ?thesis .
qed

lemma haversine_quarter_far: "\<not> haversine (0, 0) (0, 90) < 30" "31 < haversine (0, 0) (0, 90)"
proof -
  have "(31::real) < 6371000 * (2 / 2)" by simp
  also have "\<dots> \<le> 6371000 * (pi / 2)" using pi_ge_two by simp
  finally show "31 < haversine (0, 0) (0, 90)" by (simp only: haversine_quarter)
  then show "\<not> haversine (0, 0) (0, 90) < 30" by simp
qed

subsection \<open>Classification scans the hazards in list order\<close>

lemma scanCoords_near:
  "scanCoords h coords = (if near coords h then Some (specTag h) else None)"
  by (induction coords) (auto simp: near_def specTag_def intro: hazard_type.exhaust)

lemma classifySeg_find:
  "classifySeg coords hazards =
     (case find (near coords) hazards of None \<Rightarrow> Safe | Some h \<Rightarrow> specTag h)"
  by (induction hazards) (simp_all add: scanCoords_near)

lemma find_append_case:
  "find P (xs @ ys) = (case find P xs of Some x \<Rightarrow> Some x | None \<Rightarrow> find P ys)"
  by (induction xs) simp_all

subsection \<open>The chunk count and the chunk size\<close>

lemma targetCount_bounds: "3 \<le> targetCount len \<and> targetCount len \<le> 10"
  by (simp add: targetCount_def)

lemma chunkStride_covers: "len \<le> chunkStride len * targetCount len"
proof -
  have n: "0 < real (targetCount len)" using targetCount_bounds [of len] by simp
  have "real len / real (targetCount len) \<le> real (chunkStride len)"
    unfolding chunkStride_def by (rule real_nat_ceiling_ge)
  then have "real len \<le> real (chunkStride len) * real (targetCount len)"
    using n by (simp add: pos_divide_le_eq)
  then have "real len \<le> real (chunkStride len * targetCount len)" by simp
  then show ?thesis by (simp only: of_nat_le_iff)
qed

lemma chunkStride_pos: "0 < len \<Longrightarrow> 0 < chunkStride len"
  using chunkStride_covers [of len] by (cases "chunkStride len") auto

lemma nat_ceiling_divide:
  assumes "0 < b"
  shows "nat \<lceil>real a / real b\<rceil> = (a + b - 1) div b"
proof -
  let ?q = "(a + b - 1) div b"
  have up: "a \<le> ?q * b"
  proof -
    have "a + b - 1 < (?q + 1) * b"
      using dividend_less_div_times [OF assms, of "a + b - 1"] by (simp add: algebra_simps)
    then show ?thesis by simp
  qed
  have lo: "?q * b < a + b"
  proof -
    have "?q * b \<le> a + b - 1" by simp
    then show ?thesis using assms by linarith
  qed
  have "\<lceil>real a / real b\<rceil> = int ?q"
  proof (rule ceiling_unique)
    have "real ?q * real b < real a + real b"
    proof -
      have "real (?q * b) < real (a + b)" using lo by (simp only: of_nat_less_iff)
      then show ?thesis by simp
    qed
    then have "(real ?q - 1) * real b < real a" by (simp add: algebra_simps)
    then show "of_int (int ?q) - 1 < real a / real b"
      using assms by (simp add: pos_less_divide_eq)
    have "real a \<le> real ?q * real b"
    proof -
      have "real a \<le> real (?q * b)" using up by (simp only: of_nat_le_iff)
      then show ?thesis by simp
    qed
    then show "real a / real b \<le> of_int (int ?q)"
      using assms by (simp add: pos_divide_le_eq)
  qed
  then show ?thesis by simp
qed

lemma less_ceil_div:
  assumes c: "0 < c"
  shows "k < (a + c - 1) div c \<longleftrightarrow> k * c < (a::nat)"
proof -
  have "k < (a + c - 1) div c \<longleftrightarrow> Suc k \<le> (a + c - 1) div c" by auto
  also have "\<dots> \<longleftrightarrow> Suc k * c \<le> a + c - 1"
    using c by (simp add: less_eq_div_iff_mult_less_eq)
  also have "\<dots> \<longleftrightarrow> k * c < a" using c by auto
  finally show ?thesis .
qed

subsection \<open>The loop of buildResult\<close>

lemma length_slice: "length (slice xs a b) = min (b - a) (length xs - a)"
  by (simp add: slice_def)

lemma slice_hd: "a < b \<Longrightarrow> a < length xs \<Longrightarrow> hd (slice xs a b) = xs ! a"
  by (simp add: slice_def hd_drop_conv_nth)

lemma slice_ne: "a < b \<Longrightarrow> a < length xs \<Longrightarrow> slice xs a b \<noteq> []"
  by (simp add: slice_def)

lemma segLoop_chunkSlices:
  "0 < chunk \<or> length coords \<le> i + 1 \<Longrightarrow>
   segLoop coords hazards chunk i segs
     = Some (segs @ map (mkSegment hazards) (chunkSlices coords chunk i))"
proof (induction coords chunk i arbitrary: segs rule: chunkSlices.induct)
  case (1 coords chunk i)
  show ?case
  proof (cases "i + 1 < length coords")
    case True
    with "1.prems" have pos: "0 < chunk" by auto
    let ?sl = "slice coords i (min (i + chunk + 1) (length coords))"
    have len: "\<not> length ?sl < 2"
      using True pos by (simp add: length_slice)
    have guard: "int i < int (length coords) - 1" using True by simp
    have "segLoop coords hazards chunk i segs
        = segLoop coords hazards chunk (i + chunk) (segs @ [mkSegment hazards ?sl])"
      by (subst segLoop.simps) (simp only: guard len if_True if_False)
    also have "\<dots> = Some ((segs @ [mkSegment hazards ?sl])
        @ map (mkSegment hazards) (chunkSlices coords chunk (i + chunk)))"
      using True pos by (intro "1.IH") simp_all
    also have "\<dots> = Some (segs @ map (mkSegment hazards) (chunkSlices coords chunk i))"
      using True pos by (subst (2) chunkSlices.simps) simp
    finally show ?thesis .
  next
    case False
    then have guard: "\<not> int i < int (length coords) - 1" by simp
    have "segLoop coords hazards chunk i segs = Some segs"
      by (subst segLoop.simps) (simp only: guard if_False)
    moreover have "chunkSlices coords chunk i = []"
      using False by (subst chunkSlices.simps) simp
    ultimately show ?thesis by simp
  qed
qed


lemma coordinates_mkSegment [simp]: "coordinates (mkSegment hazards sl) = sl"
  by (simp add: mkSegment_def Let_def)

lemma accessibility_mkSegment [simp]: "accessibility (mkSegment hazards sl) = classifySeg sl hazards"
  by (simp add: mkSegment_def Let_def)

lemma buildResult_Some:
  "\<exists>r. buildResult coords d hazards = Some r
     \<and> segments r = routeSegments coords hazards
     \<and> totalDistance r = d
     \<and> estimatedTime r = estimateTime d (segments r)
     \<and> warnings r = buildWarnings (segments r)"
proof -
  have "0 < chunkStride (length coords) \<or> length coords \<le> 0 + 1"
    using chunkStride_pos [of "length coords"] by (cases coords) auto
  then have "segLoop coords hazards (chunkStride (length coords)) 0 []
      = Some ([] @ map (mkSegment hazards) (chunkSlices coords (chunkStride (length coords)) 0))"
    by (rule segLoop_chunkSlices)
  then show ?thesis
    by (simp add: buildResult_def Let_def routeSegments_def chunkStride_def targetCount_def)
qed

lemma coordinates_routeSegments:
  "map coordinates (routeSegments coords hazards)
     = chunkSlices coords (chunkStride (length coords)) 0"
  by (simp add: routeSegments_def comp_def)

lemma upt_shift: "map f [0..<Suc n] = f 0 # map (\<lambda>k. f (Suc k)) [0..<n]"
  by (induction n) simp_all

lemma count_step:
  assumes "0 < chunk" "i + 1 < len"
  shows "(len - 1 - i + chunk - 1) div chunk = Suc ((len - 1 - (i + chunk) + chunk - 1) div chunk)"
proof (cases "chunk \<le> len - 1 - i")
  case True
  define m where "m = len - 1 - (i + chunk) + chunk - 1"
  have "len - 1 - i + chunk - 1 = m + chunk"
    unfolding m_def using assms True by linarith
  then have "(len - 1 - i + chunk - 1) div chunk = (m + chunk) div chunk" by (rule arg_cong)
  also have "\<dots> = Suc (m div chunk)" using assms(1) by simp
  finally show ?thesis unfolding m_def .
next
  case False
  have z: "len - 1 - (i + chunk) + chunk - 1 = chunk - 1" using False by linarith
  have "(len - 1 - i + chunk - 1) div chunk = 1"
  proof (rule div_nat_eqI)
    show "chunk * 1 \<le> len - 1 - i + chunk - 1" using assms by linarith
    have "chunk * Suc 1 = chunk + chunk" by simp
    then show "len - 1 - i + chunk - 1 < chunk * Suc 1" using False assms by linarith
  qed
  moreover have "(len - 1 - (i + chunk) + chunk - 1) div chunk = 0"
    using assms(1) by (subst z) simp
  ultimately show ?thesis by simp
qed

lemma chunkSlices_map:
  "0 < chunk \<Longrightarrow>
   chunkSlices coords chunk i =
     map (\<lambda>k. slice coords (i + k * chunk) (min (i + k * chunk + chunk + 1) (length coords)))
       [0..<(length coords - 1 - i + chunk - 1) div chunk]"
proof (induction coords chunk i rule: chunkSlices.induct)
  case (1 coords chunk i)
  let ?f = "\<lambda>j k. slice coords (j + k * chunk) (min (j + k * chunk + chunk + 1) (length coords))"
  show ?case
  proof (cases "i + 1 < length coords")
    case True
    have shift: "?f (i + chunk) = (\<lambda>k. ?f i (Suc k))"
      by (rule ext) (simp add: add.assoc)
    have "chunkSlices coords chunk i = ?f i 0 # chunkSlices coords chunk (i + chunk)"
      using True "1.prems" by (subst chunkSlices.simps) simp
    also have "chunkSlices coords chunk (i + chunk) =
        map (?f (i + chunk)) [0..<(length coords - 1 - (i + chunk) + chunk - 1) div chunk]"
      using True "1.prems" by (intro "1.IH") simp_all
    also have "?f i 0 # map (?f (i + chunk)) [0..<(length coords - 1 - (i + chunk) + chunk - 1) div chunk]
        = map (?f i) [0..<Suc ((length coords - 1 - (i + chunk) + chunk - 1) div chunk)]"
      by (simp only: shift upt_shift)
    also have "\<dots> = map (?f i) [0..<(length coords - 1 - i + chunk - 1) div chunk]"
      by (simp only: count_step [OF "1.prems" True])
    finally show ?thesis .
  next
    case False
    then have "(length coords - 1 - i + chunk - 1) div chunk = 0"
      using "1.prems" by simp
    moreover have "chunkSlices coords chunk i = []"
      using False by (subst chunkSlices.simps) simp
    ultimately show ?thesis by simp
  qed
qed

subsection \<open>The shape of the chunks\<close>

lemma slice_last:
  assumes "a < b" "b \<le> length xs"
  shows "last (slice xs a b) = xs ! (b - 1)"
proof -
  have len: "length (slice xs a b) = b - a" using assms by (simp add: length_slice)
  then have "slice xs a b \<noteq> []" using assms by auto
  then have "last (slice xs a b) = slice xs a b ! (b - a - 1)"
    by (simp add: last_conv_nth len)
  also have "\<dots> = xs ! (a + (b - a - 1))"
    using assms by (simp add: slice_def)
  also have "a + (b - a - 1) = b - 1" using assms by simp
  finally show ?thesis .
qed

lemma chunks_shape:
  fixes coords :: "coord list" and hazards :: "HazardPoint list"
  defines "chunk \<equiv> chunkStride (length coords)"
  defines "cs \<equiv> map coordinates (routeSegments coords hazards)"
  shows chunks_length: "length cs = (length coords - 1 + chunk - 1) div chunk"
    and chunks_nth: "k < length cs \<Longrightarrow>
          cs ! k = slice coords (k * chunk) (min (k * chunk + chunk + 1) (length coords))"
    and chunks_index: "k < length cs \<longleftrightarrow> 0 < chunk \<and> k * chunk + 1 < length coords"
proof -
  have cs: "cs = chunkSlices coords chunk 0"
    by (simp add: cs_def chunk_def coordinates_routeSegments)
  show len: "length cs = (length coords - 1 + chunk - 1) div chunk"
  proof (cases "0 < chunk")
    case True
    then show ?thesis by (simp add: cs chunkSlices_map)
  next
    case False
    then show ?thesis by (subst cs, subst chunkSlices.simps) simp
  qed
  show "k < length cs \<Longrightarrow>
          cs ! k = slice coords (k * chunk) (min (k * chunk + chunk + 1) (length coords))"
  proof -
    assume k: "k < length cs"
    then have pos: "0 < chunk" using len by (cases "chunk = 0") auto
    from k pos show ?thesis by (simp add: cs chunkSlices_map)
  qed
  show "k < length cs \<longleftrightarrow> 0 < chunk \<and> k * chunk + 1 < length coords"
  proof (cases "0 < chunk")
    case True
    have "k < length cs \<longleftrightarrow> k * chunk < length coords - 1"
      using True by (simp only: len less_ceil_div)
    then show ?thesis using True by auto
  next
    case False
    then show ?thesis using len by simp
  qed
qed

lemma chunks_count_le: "length (routeSegments coords hazards) \<le> targetCount (length coords)"
proof -
  let ?cs = "map coordinates (routeSegments coords hazards)"
  let ?n = "targetCount (length coords)"
  have "\<not> ?n < length ?cs"
  proof
    assume "?n < length ?cs"
    then have "?n * chunkStride (length coords) + 1 < length coords"
      by (simp only: chunks_index)
    moreover have "length coords \<le> chunkStride (length coords) * ?n"
      by (rule chunkStride_covers)
    ultimately show False by (simp add: mult.commute)
  qed
  then show ?thesis by simp
qed

lemma chunks_count:
  "length (routeSegments coords hazards) =
     (if length coords < 2 then 0
      else nat \<lceil>real (length coords - 1) / real (chunkStride (length coords))\<rceil>)"
proof (cases "length coords < 2")
  case True
  have "\<not> 0 < length (map coordinates (routeSegments coords hazards))"
    using True by (simp only: chunks_index) simp
  with True show ?thesis by simp
next
  case False
  then have "0 < length coords" by linarith
  then have "0 < chunkStride (length coords)" by (rule chunkStride_pos)
  then have "nat \<lceil>real (length coords - 1) / real (chunkStride (length coords))\<rceil>
      = (length coords - 1 + chunkStride (length coords) - 1) div chunkStride (length coords)"
    by (rule nat_ceiling_divide)
  moreover have "length (map coordinates (routeSegments coords hazards))
      = (length coords - 1 + chunkStride (length coords) - 1) div chunkStride (length coords)"
    by (rule chunks_length)
  ultimately show ?thesis using False by simp
qed

lemma chunk_two_points:
  assumes "k < length (routeSegments coords hazards)"
  shows "2 \<le> length (coordinates (routeSegments coords hazards ! k))"
proof -
  let ?cs = "map coordinates (routeSegments coords hazards)"
  let ?chunk = "chunkStride (length coords)"
  have k: "k < length ?cs" using assms by simp
  then have i: "0 < ?chunk \<and> k * ?chunk + 1 < length coords" by (simp only: chunks_index)
  have "?cs ! k = slice coords (k * ?chunk) (min (k * ?chunk + ?chunk + 1) (length coords))"
    using k by (rule chunks_nth)
  then have "length (?cs ! k) = min (min (k * ?chunk + ?chunk + 1) (length coords) - k * ?chunk) (length coords - k * ?chunk)"
    by (simp only: length_slice)
  with i have "2 \<le> length (?cs ! k)" by linarith
  then show ?thesis using assms by simp
qed

lemma chunk_boundary:
  assumes "Suc k < length (routeSegments coords hazards)"
  shows "length (coordinates (routeSegments coords hazards ! k)) = chunkStride (length coords) + 1"
    and "hd (coordinates (routeSegments coords hazards ! Suc k))
           = last (coordinates (routeSegments coords hazards ! k))"
proof -
  let ?cs = "map coordinates (routeSegments coords hazards)"
  let ?chunk = "chunkStride (length coords)"
  have k1: "Suc k < length ?cs" using assms by simp
  then have k: "k < length ?cs" by simp
  from k1 have i: "0 < ?chunk \<and> Suc k * ?chunk + 1 < length coords" by (simp only: chunks_index)
  then have e: "min (k * ?chunk + ?chunk + 1) (length coords) = k * ?chunk + ?chunk + 1" by simp
  have ck: "?cs ! k = slice coords (k * ?chunk) (k * ?chunk + ?chunk + 1)"
    using chunks_nth [OF k] by (simp only: e)
  have ck1: "?cs ! Suc k = slice coords (Suc k * ?chunk) (min (Suc k * ?chunk + ?chunk + 1) (length coords))"
    using k1 by (rule chunks_nth)
  have "length (?cs ! k)
      = min (k * ?chunk + ?chunk + 1 - k * ?chunk) (length coords - k * ?chunk)"
    by (simp only: ck length_slice)
  moreover have "k * ?chunk + ?chunk + 1 < length coords" using i by simp
  ultimately have "length (?cs ! k) = ?chunk + 1" by linarith
  then show "length (coordinates (routeSegments coords hazards ! k)) = ?chunk + 1"
    using assms by simp
  have "last (?cs ! k) = coords ! (k * ?chunk + ?chunk + 1 - 1)"
    unfolding ck using i by (intro slice_last) simp_all
  moreover have "hd (?cs ! Suc k) = coords ! (Suc k * ?chunk)"
    unfolding ck1 using i by (intro slice_hd) simp_all
  ultimately have "hd (?cs ! Suc k) = last (?cs ! k)" by (simp add: add.commute)
  then show "hd (coordinates (routeSegments coords hazards ! Suc k))
           = last (coordinates (routeSegments coords hazards ! k))"
    using assms by simp
qed

lemma retained_nominal:
  fixes coords :: "coord list" and hazards :: "HazardPoint list"
  defines "n \<equiv> targetCount (length coords)"
  defines "chunk \<equiv> chunkStride (length coords)"
  defines "nominal \<equiv> \<lambda>k. slice coords (k * chunk) (min (k * chunk + chunk + 1) (length coords))"
  shows "map coordinates (routeSegments coords hazards)
           = filter (\<lambda>c. 2 \<le> length c) (map nominal [0..<n])"
proof -
  let ?cs = "map coordinates (routeSegments coords hazards)"
  let ?m = "length ?cs"
  have cs: "?cs = map nominal [0..<?m]"
  proof (rule nth_equalityI)
    show "length ?cs = length (map nominal [0..<?m])" by simp
    fix k assume k: "k < length ?cs"
    then have "?cs ! k = nominal k" unfolding nominal_def chunk_def by (rule chunks_nth)
    with k show "?cs ! k = map nominal [0..<?m] ! k" by simp
  qed
  have le: "?m \<le> n" unfolding n_def using chunks_count_le [of coords hazards] by simp
  then have split: "[0..<n] = [0..<?m] @ [?m..<n]"
    using upt_add_eq_append [of 0 ?m "n - ?m"] by simp
  have keep: "filter (\<lambda>c. 2 \<le> length c) (map nominal [0..<?m]) = map nominal [0..<?m]"
  proof (rule filter_True)
    show "\<forall>c\<in>set (map nominal [0..<?m]). 2 \<le> length c"
    proof
      fix c assume "c \<in> set (map nominal [0..<?m])"
      then obtain k where k: "k < ?m" and c: "c = nominal k" by auto
      from k have "?cs ! k = nominal k" unfolding nominal_def chunk_def by (rule chunks_nth)
      moreover have "2 \<le> length (coordinates (routeSegments coords hazards ! k))"
        using k by (intro chunk_two_points) simp
      ultimately show "2 \<le> length c" using k c by simp
    qed
  qed
  have drop: "filter (\<lambda>c. 2 \<le> length c) (map nominal [?m..<n]) = []"
  proof (rule filter_False)
    show "\<forall>c\<in>set (map nominal [?m..<n]). \<not> 2 \<le> length c"
    proof
      fix c assume "c \<in> set (map nominal [?m..<n])"
      then obtain k where k: "?m \<le> k" and c: "c = nominal k" by auto
      from k have "\<not> k < ?m" by simp
      then have nk: "\<not> (0 < chunk \<and> k * chunk + 1 < length coords)"
        unfolding chunk_def
        using chunks_index [where k = k and coords = coords and hazards = hazards] by blast
      have "length (nominal k) \<le> length coords - k * chunk"
        unfolding nominal_def by (simp add: length_slice)
      moreover have "length coords - k * chunk \<le> 1"
      proof (cases "0 < chunk")
        case True
        with nk show ?thesis by simp
      next
        case False
        then have "\<not> 0 < length coords"
          unfolding chunk_def using chunkStride_pos [of "length coords"] by auto
        then show ?thesis by simp
      qed
      ultimately show "\<not> 2 \<le> length c" using c by simp
    qed
  qed
  have "filter (\<lambda>c. 2 \<le> length c) (map nominal [0..<n])
      = filter (\<lambda>c. 2 \<le> length c) (map nominal [0..<?m])
        @ filter (\<lambda>c. 2 \<le> length c) (map nominal [?m..<n])"
    by (subst split) (simp only: map_append filter_append)
  also have "\<dots> = map nominal [0..<?m]" by (simp only: keep drop append_Nil2)
  finally show ?thesis using cs by simp
qed

subsection \<open>Joining the chunks gives the path back\<close>

lemma take_Suc_slice:
  assumes "a < b" "a < length xs" "b \<le> length xs"
  shows "take (Suc a) xs @ tl (slice xs a b) = take b xs"
proof -
  have "tl (slice xs a b) = take (b - Suc a) (drop (Suc a) xs)"
    using assms by (simp add: slice_def tl_take drop_Suc tl_drop)
  moreover have "take (Suc a) xs @ take (b - Suc a) (drop (Suc a) xs) = take (Suc a + (b - Suc a)) xs"
    by (rule take_add [symmetric])
  moreover have "Suc a + (b - Suc a) = b" using assms by simp
  ultimately show ?thesis by simp
qed

lemma foldl_chunkSlices:
  "0 < chunk \<Longrightarrow> i < length coords \<Longrightarrow>
   foldl appendChunk (take (Suc i) coords) (chunkSlices coords chunk i) = coords"
proof (induction coords chunk i rule: chunkSlices.induct)
  case (1 coords chunk i)
  show ?case
  proof (cases "i + 1 < length coords")
    case False
    with "1.prems" have "take (Suc i) coords = coords" by simp
    with False show ?thesis by (subst chunkSlices.simps) simp
  next
    case True
    let ?e = "min (i + chunk + 1) (length coords)"
    let ?c = "slice coords i ?e"
    have ie: "i < ?e" by (simp add: "1.prems")
    have ne: "?c \<noteq> []" using ie "1.prems" by (intro slice_ne) auto
    have hd: "hd ?c = coords ! i" using ie "1.prems" by (intro slice_hd) auto
    have lst: "last (take (Suc i) coords) = coords ! i"
      using "1.prems" by (simp add: take_Suc_conv_app_nth)
    have tne: "take (Suc i) coords \<noteq> []" using "1.prems" by auto
    have step: "appendChunk (take (Suc i) coords) ?c = take ?e coords"
      using ne hd lst tne take_Suc_slice [of i ?e coords] ie "1.prems"
      by (simp add: appendChunk_def)
    show ?thesis
    proof (cases "i + chunk < length coords")
      case True
      then have "?e = Suc (i + chunk)" by simp
      with step have "appendChunk (take (Suc i) coords) ?c = take (Suc (i + chunk)) coords"
        by simp
      moreover have "foldl appendChunk (take (Suc (i + chunk)) coords)
          (chunkSlices coords chunk (i + chunk)) = coords"
        using "1.IH" "1.prems" \<open>i + 1 < length coords\<close> True by simp
      ultimately show ?thesis
        using \<open>i + 1 < length coords\<close> "1.prems" by (subst chunkSlices.simps) simp
    next
      case False
      then have "?e = length coords" by simp
      with step have s: "appendChunk (take (Suc i) coords) ?c = coords" by simp
      have "chunkSlices coords chunk (i + chunk) = []"
        using False by (subst chunkSlices.simps) simp
      with s show ?thesis
        using \<open>i + 1 < length coords\<close> "1.prems" by (subst chunkSlices.simps) simp
    qed
  qed
qed

lemma joinChunks_chunkSlices:
  assumes "0 < chunk" "2 \<le> length coords"
  shows "joinChunks (chunkSlices coords chunk 0) = coords"
proof -
  let ?c = "slice coords 0 (min (0 + chunk + 1) (length coords))"
  have cs: "chunkSlices coords chunk 0 = ?c # chunkSlices coords chunk (0 + chunk)"
    using assms by (subst chunkSlices.simps) simp
  have ne: "?c \<noteq> []" using assms by (intro slice_ne) auto
  have hd: "hd ?c = coords ! 0" using assms by (intro slice_hd) auto
  have t1: "take (Suc 0) coords = [coords ! 0]"
    using assms by (cases coords) auto
  have "appendChunk [] ?c = appendChunk (take (Suc 0) coords) ?c"
    using ne hd t1 by (cases ?c) (auto simp: appendChunk_def)
  then have "joinChunks (chunkSlices coords chunk 0)
      = foldl appendChunk (take (Suc 0) coords) (chunkSlices coords chunk 0)"
    unfolding joinChunks_def by (subst (1 2) cs) simp
  also have "\<dots> = coords"
  proof -
    have "0 < length coords" using assms(2) by linarith
    then show ?thesis using assms(1) by (rule foldl_chunkSlices [rotated])
  qed
  finally show ?thesis .
qed

lemma joinChunks_routeSegments:
  assumes "2 \<le> length coords"
  shows "joinChunks (map coordinates (routeSegments coords hazards)) = coords"
proof -
  have "0 < length coords" using assms by linarith
  then have "0 < chunkStride (length coords)" by (rule chunkStride_pos)
  then show ?thesis
    using assms by (simp only: coordinates_routeSegments joinChunks_chunkSlices)
qed

subsection \<open>The distance function\<close>

lemma haversine_self [simp]: "haversine a a = 0"
  by (simp add: haversine_def atan2_def)

subsection \<open>Segmentation\<close>

text \<open>
  C2. For every path with at least 2 points, \<open>buildResult\<close> returns a result, and the
  coordinate sequences of its segments, concatenated in order with each chunk's first
  point dropped where it repeats the last point of the chunk before, are the path.
\<close>

theorem C2_segmentation_complete:
  assumes "2 \<le> length coords"
  shows "\<exists>r. buildResult coords d hazards = Some r
           \<and> joinChunks (map coordinates (segments r)) = coords"
proof -
  obtain r where r: "buildResult coords d hazards = Some r"
      "segments r = routeSegments coords hazards"
    using buildResult_Some [of coords d hazards] by blast
  have "joinChunks (map coordinates (segments r)) = coords"
    using assms by (simp only: r(2) joinChunks_routeSegments)
  with r(1) show ?thesis by blast
qed

text \<open>
  C6. For every path \<open>buildResult\<close> returns a result. With
  \<open>n = clamp(floor(len/5), 3, 10)\<close> and \<open>chunk = ceil(len/n)\<close>, its chunks are the \<open>n\<close>
  slices that start at the multiples \<open>0, chunk, \<dots>, (n - 1) * chunk\<close> and take \<open>chunk\<close>
  steps each (the points of index \<open>k * chunk\<close> to \<open>k * chunk + chunk\<close>, as far as the
  path goes), without the slices of fewer than 2 points. So there are at most \<open>n\<close>
  chunks, \<open>ceil((len - 1)/chunk)\<close> of them on a path of at least 2 points; every chunk
  but the last has \<open>chunk + 1\<close> points, and each chunk after the first begins with the
  last point of the chunk before.
\<close>

theorem C6_segmentation_shape:
  fixes coords :: "coord list"
  defines "n \<equiv> targetCount (length coords)"
  defines "chunk \<equiv> chunkStride (length coords)"
  shows "\<exists>r. buildResult coords d hazards = Some r
    \<and> map coordinates (segments r)
        = filter (\<lambda>c. 2 \<le> length c)
            (map (\<lambda>k. slice coords (k * chunk) (min (k * chunk + chunk + 1) (length coords)))
               [0..<n])
    \<and> length (segments r) \<le> n
    \<and> length (segments r)
        = (if length coords < 2 then 0 else nat \<lceil>real (length coords - 1) / real chunk\<rceil>)
    \<and> (\<forall>k < length (segments r).
          coordinates (segments r ! k)
            = slice coords (k * chunk) (min (k * chunk + chunk + 1) (length coords))
          \<and> 2 \<le> length (coordinates (segments r ! k)))
    \<and> (\<forall>k. Suc k < length (segments r) \<longrightarrow>
          length (coordinates (segments r ! k)) = chunk + 1
          \<and> hd (coordinates (segments r ! Suc k)) = last (coordinates (segments r ! k)))"
proof -
  obtain r where r: "buildResult coords d hazards = Some r"
      and s: "segments r = routeSegments coords hazards"
    using buildResult_Some [of coords d hazards] by blast
  have nth: "coordinates (routeSegments coords hazards ! k)
      = slice coords (k * chunk) (min (k * chunk + chunk + 1) (length coords))"
    if "k < length (routeSegments coords hazards)" for k
  proof -
    have "k < length (map coordinates (routeSegments coords hazards))" using that by simp
    then have "map coordinates (routeSegments coords hazards) ! k
      = slice coords (k * chunk) (min (k * chunk + chunk + 1) (length coords))"
      unfolding chunk_def by (rule chunks_nth)
    then show ?thesis using that by simp
  qed
  have "map coordinates (segments r)
        = filter (\<lambda>c. 2 \<le> length c)
            (map (\<lambda>k. slice coords (k * chunk) (min (k * chunk + chunk + 1) (length coords)))
               [0..<n])"
    unfolding s n_def chunk_def by (rule retained_nominal)
  moreover have "length (segments r) \<le> n"
    unfolding s n_def by (rule chunks_count_le)
  moreover have "length (segments r)
        = (if length coords < 2 then 0 else nat \<lceil>real (length coords - 1) / real chunk\<rceil>)"
    unfolding s chunk_def by (rule chunks_count)
  moreover have "\<forall>k < length (segments r).
          coordinates (segments r ! k)
            = slice coords (k * chunk) (min (k * chunk + chunk + 1) (length coords))
          \<and> 2 \<le> length (coordinates (segments r ! k))"
    unfolding s using nth chunk_two_points by blast
  moreover have "\<forall>k. Suc k < length (segments r) \<longrightarrow>
          length (coordinates (segments r ! k)) = chunk + 1
          \<and> hd (coordinates (segments r ! Suc k)) = last (coordinates (segments r ! k))"
    unfolding s chunk_def using chunk_boundary by blast
  ultimately show ?thesis using r by blast
qed

subsection \<open>Classification\<close>

lemma find_None_far:
  "(\<forall>h\<in>set hazards. \<forall>c\<in>set coords. \<not> haversine c (h_lat h, h_lng h) < 30)
     \<Longrightarrow> find (near coords) hazards = None"
  by (simp add: find_None_iff near_def)

text \<open>
  C1. For every chunk and every hazard list, \<open>classifySeg\<close> returns the tag of the first
  hazard of the list that has a point of the chunk less than 30 m from it: \<open>hazard\<close> for
  severity hazard, \<open>safe\<close> for severity info, \<open>caution\<close> otherwise; in the catalog
  \<open>combined\<close> the static accessibility points come before the user reports. When no
  hazard is less than 30 m from any point of the chunk, it returns \<open>safe\<close>.
\<close>

theorem C1_classify_first_match:
  "classifySeg coords hazards
     = (case find (near coords) hazards of None \<Rightarrow> Safe | Some h \<Rightarrow> specTag h)
   \<and> classifySeg coords (combined aPoints reports)
     = (case find (near coords) aPoints of
          Some h \<Rightarrow> specTag h
        | None \<Rightarrow> (case find (near coords) (map reportHazard reports) of
                     Some h \<Rightarrow> specTag h
                   | None \<Rightarrow> Safe))
   \<and> ((\<forall>h\<in>set hazards. \<forall>c\<in>set coords. \<not> haversine c (h_lat h, h_lng h) < 30)
        \<longrightarrow> classifySeg coords hazards = Safe)"
proof (intro conjI impI)
  show "classifySeg coords hazards
     = (case find (near coords) hazards of None \<Rightarrow> Safe | Some h \<Rightarrow> specTag h)"
    by (rule classifySeg_find)
  show "classifySeg coords (combined aPoints reports)
     = (case find (near coords) aPoints of
          Some h \<Rightarrow> specTag h
        | None \<Rightarrow> (case find (near coords) (map reportHazard reports) of
                     Some h \<Rightarrow> specTag h
                   | None \<Rightarrow> Safe))"
    by (simp add: classifySeg_find combined_def find_append_case split: option.splits)
  assume "\<forall>h\<in>set hazards. \<forall>c\<in>set coords. \<not> haversine c (h_lat h, h_lng h) < 30"
  then have "find (near coords) hazards = None" by (rule find_None_far)
  then show "classifySeg coords hazards = Safe" by (simp add: classifySeg_find)
qed

lemma near_gate: "near [(27.6206, 85.5390)] gateRamp" "near [(27.6206, 85.5390)] (reportHazard gateReport)"
  by (simp_all add: near_def gateRamp_def gateReport_def reportHazard_def)

theorem C1_classify_first_match_witness:
  "\<not> haversine (0, 0) (h_lat farCaution, h_lng farCaution) < 30
   \<and> classifySeg [(0, 0)] [farCaution] = Safe
   \<and> classifySeg [(0, 0), (0, 90)] [farCaution, originHazard] = Caution
   \<and> classifySeg [(27.6206, 85.5390)] (combined [gateRamp] [gateReport]) = Safe"
proof -
  have far: "\<not> haversine (0, 0) (h_lat farCaution, h_lng farCaution) < 30"
    by (simp add: farCaution_def haversine_quarter_far)
  then have "\<forall>h\<in>set [farCaution]. \<forall>c\<in>set [(0, 0)]. \<not> haversine c (h_lat h, h_lng h) < 30"
    by simp
  with C1_classify_first_match [of "[(0, 0)]" "[farCaution]" "[gateRamp]" "[gateReport]"]
  have a: "classifySeg [(0, 0)] [farCaution] = Safe" by blast
  have n: "near [(0, 0), (0, 90)] farCaution"
    by (simp add: near_def farCaution_def)
  have b: "classifySeg [(0, 0), (0, 90)] [farCaution, originHazard] = Caution"
    using C1_classify_first_match [of "[(0, 0), (0, 90)]" "[farCaution, originHazard]" "[]" "[]"] n
    by (simp add: specTag_def farCaution_def)
  have c: "classifySeg [(27.6206, 85.5390)] (combined [gateRamp] [gateReport]) = Safe"
    using C1_classify_first_match [of "[(27.6206, 85.5390)]" "[]" "[gateRamp]" "[gateReport]"] near_gate
    by (simp add: specTag_def gateRamp_def)
  from far a b c show ?thesis by blast
qed

subsection \<open>Segmentation of concrete paths\<close>

lemma chunkStride_7: "chunkStride 7 = 3"
  by (simp add: chunkStride_def targetCount_def)

lemma upt_0_2: "[0..<2] = [0, 1]"
  by (simp add: numeral_2_eq_2)

lemma upt_0_3: "[0..<3] = [0, 1, 2]"
  by (simp add: numeral_3_eq_3)

lemma chunkSlices_path7:
  "chunkSlices path7 3 0 =
     [[(27.6196, 85.5385), (27.6197, 85.5385), (27.6198, 85.5385), (27.6199, 85.5385)],
      [(27.6199, 85.5385), (27.6200, 85.5385), (27.6200, 85.5390), (27.6200, 85.5395)]]"
proof -
  have l7: "length path7 = 7" by (simp add: path7_def)
  have "chunkSlices path7 3 0 =
      map (\<lambda>k. slice path7 (0 + k * 3) (min (0 + k * 3 + 3 + 1) (length path7)))
        [0..<(length path7 - 1 - 0 + 3 - 1) div 3]"
    by (rule chunkSlices_map) simp
  also have "(length path7 - 1 - 0 + 3 - 1) div 3 = 2" by (simp add: l7)
  finally show ?thesis
    by (simp add: upt_0_2 l7) (simp add: slice_def path7_def)
qed

lemma routeSegments_path7:
  "map coordinates (routeSegments path7 hazards) =
     [[(27.6196, 85.5385), (27.6197, 85.5385), (27.6198, 85.5385), (27.6199, 85.5385)],
      [(27.6199, 85.5385), (27.6200, 85.5385), (27.6200, 85.5390), (27.6200, 85.5395)]]"
proof -
  have "length path7 = 7" by (simp add: path7_def)
  then have "map coordinates (routeSegments path7 hazards) = chunkSlices path7 3 0"
    by (simp only: coordinates_routeSegments chunkStride_7)
  then show ?thesis by (simp only: chunkSlices_path7)
qed

theorem C2_segmentation_complete_witness:
  "2 \<le> length path7
   \<and> (\<exists>r. buildResult path7 620 [] = Some r
          \<and> map coordinates (segments r) =
               [[(27.6196, 85.5385), (27.6197, 85.5385), (27.6198, 85.5385), (27.6199, 85.5385)],
                [(27.6199, 85.5385), (27.6200, 85.5385), (27.6200, 85.5390), (27.6200, 85.5395)]]
          \<and> joinChunks (map coordinates (segments r)) = path7)"
proof -
  have len: "2 \<le> length path7" by (simp add: path7_def)
  obtain r where r: "buildResult path7 620 [] = Some r"
      "joinChunks (map coordinates (segments r)) = path7"
    using C2_segmentation_complete [OF len, of 620 "[]"] by blast
  obtain r' where r': "buildResult path7 620 [] = Some r'"
      "segments r' = routeSegments path7 []"
    using buildResult_Some [of path7 620 "[]"] by blast
  from r(1) r'(1) have "r' = r" by (simp only: option.inject)
  with r'(2) have s: "segments r = routeSegments path7 []" by (simp only:)
  have c: "map coordinates (segments r) =
               [[(27.6196, 85.5385), (27.6197, 85.5385), (27.6198, 85.5385), (27.6199, 85.5385)],
                [(27.6199, 85.5385), (27.6200, 85.5385), (27.6200, 85.5390), (27.6200, 85.5395)]]"
    by (simp only: s routeSegments_path7)
  show ?thesis
    by (intro conjI exI [of _ r]) (rule len r c)+
qed

lemma nominal_path7:
  "filter (\<lambda>c. 2 \<le> length c)
     (map (\<lambda>k. slice path7 (k * 3) (min (k * 3 + 3 + 1) 7)) [0..<3])
   = [slice path7 0 4, slice path7 3 7]"
proof -
  have l7: "length path7 = 7" by (simp add: path7_def)
  show ?thesis by (simp add: upt_0_3 length_slice l7)
qed

lemma nominal_path2:
  "filter (\<lambda>c. 2 \<le> length c)
     (map (\<lambda>k. slice path2 (k * 1) (min (k * 1 + 1 + 1) 2)) [0..<3])
   = [path2]"
proof -
  have l2: "length path2 = 2" by (simp add: path2_def)
  show ?thesis by (simp add: upt_0_3 length_slice l2) (simp add: slice_def path2_def)
qed

theorem C6_segmentation_shape_witness:
  "(\<exists>r. buildResult path7 620 [] = Some r
      \<and> targetCount (length path7) = 3
      \<and> chunkStride (length path7) = 3
      \<and> map coordinates (segments r) = [slice path7 0 4, slice path7 3 7]
      \<and> length (slice path7 6 7) = 1
      \<and> length (segments r) = 2
      \<and> length (coordinates (segments r ! 0)) = 3 + 1
      \<and> hd (coordinates (segments r ! 1)) = last (coordinates (segments r ! 0)))
   \<and> (\<exists>r. buildResult path2 100 [] = Some r
      \<and> targetCount (length path2) = 3
      \<and> chunkStride (length path2) = 1
      \<and> map coordinates (segments r) = [path2]
      \<and> length (slice path2 1 2) = 1
      \<and> length (slice path2 2 2) = 0)"
proof -
  have l7: "length path7 = 7" by (simp add: path7_def)
  have n: "targetCount (length path7) = 3" by (simp add: l7 targetCount_def)
  have c: "chunkStride (length path7) = 3" by (simp only: l7 chunkStride_7)
  obtain r where r: "buildResult path7 620 [] = Some r"
    and flt: "map coordinates (segments r)
        = filter (\<lambda>c. 2 \<le> length c)
            (map (\<lambda>k. slice path7 (k * chunkStride (length path7))
                     (min (k * chunkStride (length path7) + chunkStride (length path7) + 1)
                        (length path7)))
               [0..<targetCount (length path7)])"
    and bnd: "\<forall>k. Suc k < length (segments r) \<longrightarrow>
          length (coordinates (segments r ! k)) = chunkStride (length path7) + 1
          \<and> hd (coordinates (segments r ! Suc k)) = last (coordinates (segments r ! k))"
    using C6_segmentation_shape [of path7 620 "[]"] by blast
  have n7: "targetCount 7 = 3" by (simp add: targetCount_def)
  have m: "map coordinates (segments r) = [slice path7 0 4, slice path7 3 7]"
    using flt unfolding l7 n7 chunkStride_7 by (simp only: nominal_path7)
  have t: "length (slice path7 6 7) = 1" by (simp add: length_slice l7)
  have "length (map coordinates (segments r)) = 2" by (simp only: m) simp
  then have two: "length (segments r) = 2" by simp
  have b: "length (coordinates (segments r ! 0)) = 3 + 1"
      "hd (coordinates (segments r ! 1)) = last (coordinates (segments r ! 0))"
    using bnd [rule_format, of 0] unfolding two l7 chunkStride_7 by simp_all
  have A: "\<exists>r. buildResult path7 620 [] = Some r
      \<and> targetCount (length path7) = 3
      \<and> chunkStride (length path7) = 3
      \<and> map coordinates (segments r) = [slice path7 0 4, slice path7 3 7]
      \<and> length (slice path7 6 7) = 1
      \<and> length (segments r) = 2
      \<and> length (coordinates (segments r ! 0)) = 3 + 1
      \<and> hd (coordinates (segments r ! 1)) = last (coordinates (segments r ! 0))"
    by (intro conjI exI [of _ r]) (rule r n c m t two b)+
  have l2: "length path2 = 2" by (simp add: path2_def)
  have n2: "targetCount (length path2) = 3" by (simp add: l2 targetCount_def)
  have c2: "chunkStride (length path2) = 1" by (simp add: l2 chunkStride_def targetCount_def)
  obtain q where q: "buildResult path2 100 [] = Some q"
    and flt2: "map coordinates (segments q)
        = filter (\<lambda>c. 2 \<le> length c)
            (map (\<lambda>k. slice path2 (k * chunkStride (length path2))
                     (min (k * chunkStride (length path2) + chunkStride (length path2) + 1)
                        (length path2)))
               [0..<targetCount (length path2)])"
    using C6_segmentation_shape [of path2 100 "[]"] by blast
  have n2': "targetCount 2 = 3" by (simp add: targetCount_def)
  have c2': "chunkStride 2 = 1" by (simp add: chunkStride_def targetCount_def)
  have m2: "map coordinates (segments q) = [path2]"
    using flt2 unfolding l2 n2' c2' by (simp only: nominal_path2)
  have t2: "length (slice path2 1 2) = 1" "length (slice path2 2 2) = 0"
    by (simp_all add: length_slice l2)
  have B: "\<exists>r. buildResult path2 100 [] = Some r
      \<and> targetCount (length path2) = 3
      \<and> chunkStride (length path2) = 1
      \<and> map coordinates (segments r) = [path2]
      \<and> length (slice path2 1 2) = 1
      \<and> length (slice path2 2 2) = 0"
    by (intro conjI exI [of _ q]) (rule q n2 c2 m2 t2)+
  from A B show ?thesis by (rule conjI)
qed

subsection \<open>Time estimate\<close>

lemma tag_counts:
  "length (filter (\<lambda>s. accessibility s = Safe) segs)
     + length (filter (\<lambda>s. accessibility s = Caution) segs)
     + length (filter (\<lambda>s. accessibility s = Hazard) segs) = length segs"
proof (induction segs)
  case Nil
  show ?case by simp
next
  case (Cons s segs)
  then show ?case by (cases "accessibility s") simp_all
qed

lemma tagRatio_sum:
  assumes "segs \<noteq> []"
  shows "tagRatio Safe segs + tagRatio Caution segs + tagRatio Hazard segs = 1"
proof -
  have n: "real (length segs) \<noteq> 0" using assms by simp
  have "tagRatio Safe segs + tagRatio Caution segs + tagRatio Hazard segs
      = real (length (filter (\<lambda>s. accessibility s = Safe) segs)
          + length (filter (\<lambda>s. accessibility s = Caution) segs)
          + length (filter (\<lambda>s. accessibility s = Hazard) segs)) / real (length segs)"
    by (simp add: tagRatio_def add_divide_distrib)
  also have "\<dots> = real (length segs) / real (length segs)"
    by (simp only: tag_counts)
  also have "\<dots> = 1" using n by simp
  finally show ?thesis .
qed

lemma tagRatio_nonneg: "0 \<le> tagRatio tag segs"
  by (simp add: tagRatio_def)

lemma speedFactor_lower:
  assumes "segs \<noteq> []"
  shows "0.35 \<le> speedFactor segs"
proof -
  have s: "tagRatio Safe segs = 1 - tagRatio Caution segs - tagRatio Hazard segs"
    using tagRatio_sum [OF assms] by simp
  have "speedFactor segs
      = 1 - (35 / 100) * tagRatio Caution segs - (65 / 100) * tagRatio Hazard segs"
    unfolding speedFactor_def s by (simp add: algebra_simps)
  moreover have "tagRatio Caution segs + tagRatio Hazard segs \<le> 1"
    using tagRatio_sum [OF assms] tagRatio_nonneg [of Safe segs] by linarith
  moreover have "0 \<le> tagRatio Caution segs" by (rule tagRatio_nonneg)
  moreover have "0 \<le> tagRatio Hazard segs" by (rule tagRatio_nonneg)
  ultimately have "35 / 100 \<le> speedFactor segs" by linarith
  then show ?thesis by simp
qed

lemma estimateTime_nonempty:
  assumes "segs \<noteq> []"
  shows "estimateTime d segs = d / max (speedFactor segs) 0.2"
  using assms by (simp add: estimateTime_def Let_def speedFactor_def tagRatio_def)

lemma estimateTime_empty: "estimateTime d [] = d"
  by (simp add: estimateTime_def)

lemma estimateTime_floor:
  assumes "0 \<le> d"
  shows "estimateTime d segs \<le> d / 0.2"
proof (cases "segs = []")
  case True
  then show ?thesis using assms by (simp add: estimateTime_empty)
next
  case False
  have "(0.2::real) \<le> max (speedFactor segs) 0.2" by simp
  then have "d / max (speedFactor segs) 0.2 \<le> d / 0.2"
    using assms by (intro divide_left_mono) simp_all
  then show ?thesis by (simp only: estimateTime_nonempty [OF False])
qed

text \<open>
  C3 (amended). For every distance \<open>d\<close> and every non-empty segment list,
  \<open>estimateTime\<close> divides \<open>d\<close> by \<open>max(safeRatio*1.0 + cautionRatio*0.65 + hazardRatio*0.35, 0.2)\<close>,
  the ratios being the shares of the segments, by count, that carry each tag; for the
  empty list it returns \<open>d\<close>; so for \<open>d \<ge> 0\<close> and any segment list the estimate is at
  most \<open>d / 0.2\<close>.
\<close>

theorem C3_estimateTime_formula:
  "(segs \<noteq> [] \<longrightarrow> estimateTime d segs = d / max (speedFactor segs) 0.2)
   \<and> estimateTime d [] = d
   \<and> (0 \<le> d \<longrightarrow> estimateTime d segs \<le> d / 0.2)"
  using estimateTime_nonempty [of segs d] estimateTime_empty [of d] estimateTime_floor [of d segs]
  by blast

lemma hazardSeg_tag: "accessibility hazardSeg = Hazard"
  by (simp add: hazardSeg_def originHazard_def)

lemma speedFactor_hazardSeg: "speedFactor [hazardSeg] = 0.35"
  by (simp add: speedFactor_def tagRatio_def hazardSeg_tag)

theorem C3_estimateTime_formula_witness:
  "[hazardSeg] \<noteq> []
   \<and> estimateTime 70 [hazardSeg] = 70 / max (speedFactor [hazardSeg]) 0.2
   \<and> estimateTime 70 [hazardSeg] = 200
   \<and> (0::real) \<le> 70
   \<and> estimateTime 70 [hazardSeg] \<le> 70 / 0.2"
proof -
  have ne: "[hazardSeg] \<noteq> []" by simp
  have d: "(0::real) \<le> 70" by simp
  have a: "estimateTime 70 [hazardSeg] = 70 / max (speedFactor [hazardSeg]) 0.2"
    using C3_estimateTime_formula [of "[hazardSeg]" 70] ne by blast
  have b: "estimateTime 70 [hazardSeg] \<le> 70 / 0.2"
    using C3_estimateTime_formula [of "[hazardSeg]" 70] d by blast
  have c: "estimateTime 70 [hazardSeg] = 200"
    unfolding a speedFactor_hazardSeg by simp
  show ?thesis by (intro conjI) (rule ne a b c d)+
qed

text \<open>
  With no segment the three shares are quotients by 0 (0 in this theory, NaN in
  JavaScript), and the formula does not give what the code returns, \<open>d\<close> itself.
\<close>

theorem C3_empty_list_counterexample:
  "estimateTime 1 [] = 1 \<and> 1 / max (speedFactor []) 0.2 = (5::real)
   \<and> estimateTime 1 [] \<noteq> 1 / max (speedFactor []) 0.2"
  by (simp add: estimateTime_def speedFactor_def tagRatio_def)

text \<open>
  C10. For every non-empty segment list the three tag ratios sum to 1 and the weighted
  speed factor is at least 0.35, so the maximum with 0.2 is the speed factor itself, and
  \<open>estimateTime d segs \<le> d / 0.35\<close> for every \<open>d \<ge> 0\<close>.
\<close>

theorem C10_floor_unreachable:
  assumes "segs \<noteq> []"
  shows "tagRatio Safe segs + tagRatio Caution segs + tagRatio Hazard segs = 1
    \<and> 0.35 \<le> speedFactor segs
    \<and> max (speedFactor segs) 0.2 = speedFactor segs
    \<and> estimateTime d segs = d / speedFactor segs
    \<and> (0 \<le> d \<longrightarrow> estimateTime d segs \<le> d / 0.35)"
proof -
  have l: "0.35 \<le> speedFactor segs" using assms by (rule speedFactor_lower)
  then have m: "max (speedFactor segs) 0.2 = speedFactor segs" by simp
  have e: "estimateTime d segs = d / speedFactor segs"
    using estimateTime_nonempty [OF assms, of d] by (simp only: m)
  have b: "estimateTime d segs \<le> d / 0.35" if "0 \<le> d"
  proof -
    have "d / speedFactor segs \<le> d / 0.35"
      using that l by (intro divide_left_mono) simp_all
    then show ?thesis by (simp only: e)
  qed
  from tagRatio_sum [OF assms] l m e b show ?thesis by blast
qed

theorem C10_floor_unreachable_witness:
  "[hazardSeg] \<noteq> [] \<and> (0::real) \<le> 70
   \<and> tagRatio Safe [hazardSeg] + tagRatio Caution [hazardSeg] + tagRatio Hazard [hazardSeg] = 1
   \<and> speedFactor [hazardSeg] = 0.35
   \<and> max (speedFactor [hazardSeg]) 0.2 = speedFactor [hazardSeg]
   \<and> estimateTime 70 [hazardSeg] \<le> 70 / 0.35"
proof -
  have ne: "[hazardSeg] \<noteq> []" by simp
  have d: "(0::real) \<le> 70" by simp
  note t = C10_floor_unreachable [OF ne, of 70]
  have a: "tagRatio Safe [hazardSeg] + tagRatio Caution [hazardSeg] + tagRatio Hazard [hazardSeg] = 1"
    using t by blast
  have m: "max (speedFactor [hazardSeg]) 0.2 = speedFactor [hazardSeg]" using t by blast
  have b: "estimateTime 70 [hazardSeg] \<le> 70 / 0.35" using t d by blast
  show ?thesis by (intro conjI) (rule ne d a speedFactor_hazardSeg m b)+
qed

subsection \<open>The proximity threshold\<close>

lemma find_first_hazard:
  assumes "near coords h" "h_type h = T_hazard"
    and "\<forall>g\<in>set pre. h_type g \<noteq> T_hazard \<longrightarrow> \<not> near coords g"
  shows "\<exists>g. find (near coords) (pre @ h # post) = Some g \<and> h_type g = T_hazard"
  using assms(3)
proof (induction pre)
  case Nil
  show ?case using assms(1,2) by simp
next
  case (Cons g pre)
  then show ?case by (cases "near coords g") auto
qed

text \<open>
  C5 (amended). For every chunk and every hazard list: if some point of the chunk lies
  within 29 m of a hazard-severity HazardPoint, and no entry of another severity that
  comes before it in the list is less than 30 m from a point of the chunk, then
  \<open>classifySeg\<close> returns \<open>hazard\<close>; and if every hazard is more than 31 m from every point
  of the chunk, it returns \<open>safe\<close>.
\<close>

theorem C5_proximity_threshold:
  "(hazards = pre @ h # post \<and> h_type h = T_hazard
      \<and> (\<exists>c\<in>set coords. haversine c (h_lat h, h_lng h) \<le> 29)
      \<and> (\<forall>g\<in>set pre. h_type g \<noteq> T_hazard \<longrightarrow>
            (\<forall>c\<in>set coords. \<not> haversine c (h_lat g, h_lng g) < 30))
     \<longrightarrow> classifySeg coords hazards = Hazard)
   \<and> ((\<forall>g\<in>set hazards. \<forall>c\<in>set coords. 31 < haversine c (h_lat g, h_lng g))
     \<longrightarrow> classifySeg coords hazards = Safe)"
proof (intro conjI impI)
  assume a: "hazards = pre @ h # post \<and> h_type h = T_hazard
      \<and> (\<exists>c\<in>set coords. haversine c (h_lat h, h_lng h) \<le> 29)
      \<and> (\<forall>g\<in>set pre. h_type g \<noteq> T_hazard \<longrightarrow>
            (\<forall>c\<in>set coords. \<not> haversine c (h_lat g, h_lng g) < 30))"
  then obtain c where c: "c \<in> set coords" "haversine c (h_lat h, h_lng h) \<le> 29" by blast
  from c(2) have "haversine c (h_lat h, h_lng h) < 30" by linarith
  with c(1) have n: "near coords h" unfolding near_def by (rule bexI [rotated])
  from a have p: "\<forall>g\<in>set pre. h_type g \<noteq> T_hazard \<longrightarrow> \<not> near coords g"
    by (simp add: near_def)
  from a have t: "h_type h = T_hazard" by simp
  obtain g where "find (near coords) (pre @ h # post) = Some g" "h_type g = T_hazard"
    using find_first_hazard [OF n t p] by blast
  with a show "classifySeg coords hazards = Hazard"
    by (simp add: classifySeg_find specTag_def)
next
  assume far: "\<forall>g\<in>set hazards. \<forall>c\<in>set coords. 31 < haversine c (h_lat g, h_lng g)"
  have "\<not> haversine c (h_lat g, h_lng g) < 30" if "g \<in> set hazards" "c \<in> set coords" for g c
    using far [rule_format, OF that] by linarith
  then have "\<forall>g\<in>set hazards. \<forall>c\<in>set coords. \<not> haversine c (h_lat g, h_lng g) < 30"
    by blast
  then have "find (near coords) hazards = None" by (rule find_None_far)
  then show "classifySeg coords hazards = Safe" by (simp add: classifySeg_find)
qed

theorem C5_proximity_threshold_witness:
  "[farCaution, originHazard] = [farCaution] @ originHazard # [] \<and> h_type originHazard = T_hazard
   \<and> haversine (0, 0) (h_lat originHazard, h_lng originHazard) \<le> 29
   \<and> h_type farCaution \<noteq> T_hazard
   \<and> \<not> haversine (0, 0) (h_lat farCaution, h_lng farCaution) < 30
   \<and> classifySeg [(0, 0)] [farCaution, originHazard] = Hazard
   \<and> 31 < haversine (0, 0) (h_lat farCaution, h_lng farCaution)
   \<and> classifySeg [(0, 0)] [farCaution] = Safe"
proof -
  have l: "[farCaution, originHazard] = [farCaution] @ originHazard # []" by simp
  have t: "h_type originHazard = T_hazard" by (simp add: originHazard_def)
  have d: "haversine (0, 0) (h_lat originHazard, h_lng originHazard) \<le> 29"
    by (simp add: originHazard_def)
  have u: "h_type farCaution \<noteq> T_hazard" by (simp add: farCaution_def)
  have f: "\<not> haversine (0, 0) (h_lat farCaution, h_lng farCaution) < 30"
    by (simp add: farCaution_def haversine_quarter_far)
  have g: "31 < haversine (0, 0) (h_lat farCaution, h_lng farCaution)"
    by (simp add: farCaution_def haversine_quarter_far)
  have h1: "[farCaution, originHazard] = [farCaution] @ originHazard # []
      \<and> h_type originHazard = T_hazard
      \<and> (\<exists>c\<in>set [(0, 0)]. haversine c (h_lat originHazard, h_lng originHazard) \<le> 29)
      \<and> (\<forall>g\<in>set [farCaution]. h_type g \<noteq> T_hazard \<longrightarrow>
            (\<forall>c\<in>set [(0, 0)]. \<not> haversine c (h_lat g, h_lng g) < 30))"
    using l t d f by simp
  have a: "classifySeg [(0, 0)] [farCaution, originHazard] = Hazard"
    using h1 by (rule C5_proximity_threshold [THEN conjunct1, THEN mp])
  have h2: "\<forall>g\<in>set [farCaution]. \<forall>c\<in>set [(0, 0)]. 31 < haversine c (h_lat g, h_lng g)"
    using g by simp
  have b: "classifySeg [(0, 0)] [farCaution] = Safe"
    using h2 by (rule C5_proximity_threshold [THEN conjunct2, THEN mp])
  show ?thesis by (intro conjI) (rule l t d u f a g b)+
qed

text \<open>
  A report of a broken ramp at the place of the catalog's ramp: the chunk has a point
  0 m from a hazard-severity point, and is classified \<open>safe\<close>, by the info point that
  comes first.
\<close>

theorem C5_info_first_counterexample:
  "h_type (reportHazard gateReport) = T_hazard
   \<and> haversine (27.6206, 85.5390)
        (h_lat (reportHazard gateReport), h_lng (reportHazard gateReport)) \<le> 29
   \<and> classifySeg [(27.6206, 85.5390)] (combined [gateRamp] [gateReport]) = Safe"
proof -
  have a: "h_type (reportHazard gateReport) = T_hazard" by (simp add: reportHazard_def)
  have b: "haversine (27.6206, 85.5390)
        (h_lat (reportHazard gateReport), h_lng (reportHazard gateReport)) \<le> 29"
    by (simp add: reportHazard_def gateReport_def)
  have n: "near [(27.6206, 85.5390)] gateRamp"
    by (simp add: near_def gateRamp_def)
  have f: "find (near [(27.6206, 85.5390)]) (combined [gateRamp] [gateReport]) = Some gateRamp"
    using n by (simp add: combined_def)
  have s: "specTag gateRamp = Safe" by (simp add: specTag_def gateRamp_def)
  have c: "classifySeg [(27.6206, 85.5390)] (combined [gateRamp] [gateReport]) = Safe"
    by (simp only: classifySeg_find f option.case s)
  show ?thesis by (intro conjI) (rule a b c)+
qed

subsection \<open>Warnings\<close>

text \<open>\<open>showNat\<close> prints the decimal numeral of its argument, and nothing else is one.\<close>

lemma digits_distinct: "distinct ''0123456789''"
  by simp

lemma digitValue_nth:
  assumes "k < 10"
  shows "digitValue (''0123456789'' ! k) = k"
proof -
  let ?ds = "''0123456789''"
  have len: "length ?ds = 10" by simp
  have "takeWhile (\<lambda>d. d \<noteq> ?ds ! k) ?ds = take k ?ds"
  proof (rule takeWhile_eq_take_P_nth)
    fix i assume "i < k" "i < length ?ds"
    then show "?ds ! i \<noteq> ?ds ! k"
      using assms nth_eq_iff_index_eq [OF digits_distinct, of i k] by simp
  next
    show "\<not> ?ds ! k \<noteq> ?ds ! k" by simp
  qed
  then have "digitValue (?ds ! k) = length (take k ?ds)" by (simp only: digitValue_def)
  also have "\<dots> = k" using assms by simp
  finally show ?thesis .
qed

lemma digit_nth_mem: "k < 10 \<Longrightarrow> ''0123456789'' ! k \<in> set ''0123456789''"
  by (rule nth_mem) simp

lemma digit_nth_zero: "k < 10 \<Longrightarrow> ''0123456789'' ! k = CHR ''0'' \<longleftrightarrow> k = 0"
  using nth_eq_iff_index_eq [OF digits_distinct, of k 0] by simp

lemma decimalValue_snoc: "decimalValue (s @ [c]) = 10 * decimalValue s + digitValue c"
  by (simp add: decimalValue_def)

lemma showNat_ne: "showNat n \<noteq> []"
  by (subst showNat.simps) simp

lemma showNat_digits: "list_all (\<lambda>c. c \<in> set ''0123456789'') (showNat n)"
proof (induction n rule: showNat.induct)
  case (1 n)
  show ?case
  proof (cases "n < 10")
    case True
    then show ?thesis
      using digit_nth_mem [of n] by (subst showNat.simps) (simp del: set_simps)
  next
    case False
    then show ?thesis
      using "1.IH" digit_nth_mem [of "n mod 10"]
      by (subst showNat.simps) (simp del: set_simps)
  qed
qed

lemma showNat_value: "decimalValue (showNat n) = n"
proof (induction n rule: showNat.induct)
  case (1 n)
  show ?case
  proof (cases "n < 10")
    case True
    have "showNat n = [''0123456789'' ! n]" using True by (subst showNat.simps) simp
    then have "decimalValue (showNat n) = 10 * decimalValue [] + digitValue (''0123456789'' ! n)"
      using decimalValue_snoc [of "[]"] by simp
    then show ?thesis using digitValue_nth [OF True] by (simp add: decimalValue_def)
  next
    case False
    have "showNat n = showNat (n div 10) @ [''0123456789'' ! (n mod 10)]"
      using False by (subst showNat.simps) simp
    then have "decimalValue (showNat n)
        = 10 * decimalValue (showNat (n div 10)) + digitValue (''0123456789'' ! (n mod 10))"
      by (simp only: decimalValue_snoc)
    also have "\<dots> = 10 * (n div 10) + n mod 10"
      using "1.IH" False digitValue_nth [of "n mod 10"] by simp
    finally show ?thesis by simp
  qed
qed

lemma showNat_leading: "hd (showNat n) \<noteq> CHR ''0'' \<or> showNat n = ''0''"
proof (induction n rule: showNat.induct)
  case (1 n)
  show ?case
  proof (cases "n < 10")
    case True
    have s: "showNat n = [''0123456789'' ! n]" using True by (subst showNat.simps) simp
    show ?thesis
    proof (cases "n = 0")
      case True
      have "showNat 0 = ''0''" by (subst showNat.simps) simp
      with True show ?thesis by simp
    next
      case False
      then have "''0123456789'' ! n \<noteq> CHR ''0''" using digit_nth_zero [OF \<open>n < 10\<close>] by simp
      then show ?thesis by (simp only: s list.sel) simp
    qed
  next
    case False
    have s: "showNat n = showNat (n div 10) @ [''0123456789'' ! (n mod 10)]"
      using False by (subst showNat.simps) simp
    have "showNat (n div 10) \<noteq> ''0''"
    proof
      assume "showNat (n div 10) = ''0''"
      then have "decimalValue (showNat (n div 10)) = decimalValue ''0''" by (rule arg_cong)
      moreover have "decimalValue ''0'' = 0"
        using digitValue_nth [of 0] by (simp add: decimalValue_def)
      ultimately have "n div 10 = 0" by (simp only: showNat_value)
      with False show False by simp
    qed
    with "1.IH" False have "hd (showNat (n div 10)) \<noteq> CHR ''0''" by simp
    then have "hd (showNat n) \<noteq> CHR ''0''"
      using showNat_ne [of "n div 10"] by (simp add: s hd_append)
    then show ?thesis by simp
  qed
qed

lemma isDecimal_showNat: "isDecimal (showNat n) n"
  unfolding isDecimal_def
  using showNat_ne [of n] showNat_digits [of n] showNat_leading [of n] showNat_value [of n]
  by blast

lemma digit_cases:
  assumes "c \<in> set ''0123456789''"
  shows "digitValue c < 10" and "''0123456789'' ! digitValue c = c"
    and "c \<noteq> CHR ''0'' \<Longrightarrow> 0 < digitValue c"
  using assms by (auto simp: digitValue_def)

lemma decimalValue_lower:
  "digitValue c * 10 ^ length t \<le> decimalValue (c # t)"
proof (induction t rule: rev_induct)
  case Nil
  show ?case by (simp add: decimalValue_def)
next
  case (snoc x t)
  have "decimalValue (c # t @ [x]) = 10 * decimalValue (c # t) + digitValue x"
    using decimalValue_snoc [of "c # t" x] by simp
  with snoc show ?case by simp
qed

lemma isDecimal_unique: "isDecimal s n \<Longrightarrow> s = showNat n"
proof (induction s arbitrary: n rule: rev_induct)
  case Nil
  then show ?case by (simp add: isDecimal_def)
next
  case (snoc x t)
  from snoc.prems have dig: "list_all (\<lambda>c. c \<in> set ''0123456789'') t"
      and x: "x \<in> set ''0123456789''"
      and lead: "hd (t @ [x]) \<noteq> CHR ''0'' \<or> t @ [x] = ''0''"
      and val: "decimalValue (t @ [x]) = n"
    by (simp_all add: isDecimal_def del: set_simps)
  let ?k = "digitValue x"
  have k: "?k < 10" and xk: "''0123456789'' ! ?k = x" using digit_cases [OF x] by simp_all
  have n: "n = 10 * decimalValue t + ?k" using val by (simp only: decimalValue_snoc)
  show ?case
  proof (cases "t = []")
    case True
    then have "n = ?k" using n by (simp add: decimalValue_def)
    then have "showNat n = [x]" using k xk by (subst showNat.simps) simp
    with True show ?thesis by simp
  next
    case False
    then obtain c t' where t: "t = c # t'" by (cases t) auto
    have c0: "c \<noteq> CHR ''0''" using lead t by auto
    have cd: "c \<in> set ''0123456789''" using dig t by (simp del: set_simps)
    have "isDecimal t (decimalValue t)"
      unfolding isDecimal_def using False dig c0 t by (simp del: set_simps)
    then have ih: "t = showNat (decimalValue t)" by (rule snoc.IH)
    have "1 * 10 ^ length t' \<le> digitValue c * 10 ^ length t'"
      using digit_cases(3) [OF cd c0] by (intro mult_right_mono) simp_all
    also have "\<dots> \<le> decimalValue t" unfolding t by (rule decimalValue_lower)
    finally have "10 ^ length t' \<le> decimalValue t" by simp
    moreover have "(1::nat) \<le> 10 ^ length t'" by simp
    ultimately have m: "1 \<le> decimalValue t" by (rule le_trans [rotated])
    then have big: "\<not> n < 10" using n by simp
    have d: "n div 10 = decimalValue t" "n mod 10 = ?k" using n k by simp_all
    have "showNat n = showNat (n div 10) @ [''0123456789'' ! (n mod 10)]"
      using big by (subst showNat.simps) simp
    also have "\<dots> = t @ [x]" using ih by (simp only: d xk)
    finally show ?thesis by simp
  qed
qed

lemma buildWarnings_tagCount:
  "buildWarnings segs =
     (if 0 < tagCount Hazard segs then [hazardWarning (tagCount Hazard segs)] else [])
     @ (if 0 < tagCount Caution segs then [cautionWarning (tagCount Caution segs)] else [])
     @ [''Verify accessibility features on ground'']"
  by (simp add: buildWarnings_def Let_def tagCount_def)

lemma hazardWarning_2:
  "hazardWarning 2 = [CHR 0xE2, CHR 0x9A, CHR 0xA0, CHR 0xEF, CHR 0xB8, CHR 0x8F]
                       @ '' 2 accessibility barriers on this route''"
  by (simp add: hazardWarning_def showNat.simps)

lemma cautionWarning_1:
  "cautionWarning 1 = [CHR 0xF0, CHR 0x9F, CHR 0x94, CHR 0xB6] @ '' 1 caution area ''
                        @ [CHR 0xE2, CHR 0x80, CHR 0x94] @ '' proceed with care''"
  by (simp add: cautionWarning_def showNat.simps)

lemma hazardWarning_text:
  "hazardWarning hc =
     [CHR 0xE2, CHR 0x9A, CHR 0xA0, CHR 0xEF, CHR 0xB8, CHR 0x8F] @ '' '' @ showNat hc
       @ '' accessibility barrier'' @ (if 1 < hc then ''s'' else []) @ '' on this route''"
  by (simp add: hazardWarning_def)

lemma cautionWarning_text:
  "cautionWarning cc =
     [CHR 0xF0, CHR 0x9F, CHR 0x94, CHR 0xB6] @ '' '' @ showNat cc
       @ '' caution area'' @ (if 1 < cc then ''s'' else []) @ '' ''
       @ [CHR 0xE2, CHR 0x80, CHR 0x94] @ '' proceed with care''"
  by (simp add: cautionWarning_def)

text \<open>
  C7. For every scored route the warnings are, in this order: the line
  \<open>{hc} accessibility barrier(s) on this route\<close> exactly when the hazard-segment count
  \<open>hc\<close> is positive, the line \<open>{cc} caution area(s) <U+2014> proceed with care\<close> exactly
  when the caution-segment count \<open>cc\<close> is positive, and always the advisory
  \<open>Verify accessibility features on ground\<close>. In a line the count stands as its decimal
  numeral, \<open>(s)\<close> is an \<open>s\<close> for a count above 1 and nothing for the count 1, and the
  line begins with its sign (U+26A0 U+FE0F for barriers, U+1F536 for caution areas) and
  a space. A route with 2 hazard segments and 1 caution segment has exactly three
  warnings: the barrier line, the caution line, the advisory.
\<close>

theorem C7_warnings_order:
  "\<exists>r hs cs. buildResult coords d hazards = Some r
     \<and> isDecimal hs (tagCount Hazard (segments r))
     \<and> isDecimal cs (tagCount Caution (segments r))
     \<and> warnings r =
         (if 0 < tagCount Hazard (segments r)
          then [[CHR 0xE2, CHR 0x9A, CHR 0xA0, CHR 0xEF, CHR 0xB8, CHR 0x8F] @ '' '' @ hs
                  @ '' accessibility barrier''
                  @ (if 1 < tagCount Hazard (segments r) then ''s'' else [])
                  @ '' on this route'']
          else [])
         @ (if 0 < tagCount Caution (segments r)
            then [[CHR 0xF0, CHR 0x9F, CHR 0x94, CHR 0xB6] @ '' '' @ cs
                    @ '' caution area''
                    @ (if 1 < tagCount Caution (segments r) then ''s'' else [])
                    @ '' '' @ [CHR 0xE2, CHR 0x80, CHR 0x94] @ '' proceed with care'']
            else [])
         @ [''Verify accessibility features on ground'']
     \<and> (tagCount Hazard (segments r) = 2 \<and> tagCount Caution (segments r) = 1 \<longrightarrow>
          warnings r =
            [[CHR 0xE2, CHR 0x9A, CHR 0xA0, CHR 0xEF, CHR 0xB8, CHR 0x8F]
               @ '' 2 accessibility barriers on this route'',
             [CHR 0xF0, CHR 0x9F, CHR 0x94, CHR 0xB6] @ '' 1 caution area ''
               @ [CHR 0xE2, CHR 0x80, CHR 0x94] @ '' proceed with care'',
             ''Verify accessibility features on ground''])"
proof -
  obtain r where r: "buildResult coords d hazards = Some r"
      and w: "warnings r = buildWarnings (segments r)"
    using buildResult_Some [of coords d hazards] by blast
  let ?hc = "tagCount Hazard (segments r)"
  let ?cc = "tagCount Caution (segments r)"
  have h: "isDecimal (showNat ?hc) ?hc" by (rule isDecimal_showNat)
  have c: "isDecimal (showNat ?cc) ?cc" by (rule isDecimal_showNat)
  have a: "warnings r =
         (if 0 < ?hc
          then [[CHR 0xE2, CHR 0x9A, CHR 0xA0, CHR 0xEF, CHR 0xB8, CHR 0x8F] @ '' '' @ showNat ?hc
                  @ '' accessibility barrier'' @ (if 1 < ?hc then ''s'' else [])
                  @ '' on this route'']
          else [])
         @ (if 0 < ?cc
            then [[CHR 0xF0, CHR 0x9F, CHR 0x94, CHR 0xB6] @ '' '' @ showNat ?cc
                    @ '' caution area'' @ (if 1 < ?cc then ''s'' else [])
                    @ '' '' @ [CHR 0xE2, CHR 0x80, CHR 0x94] @ '' proceed with care'']
            else [])
         @ [''Verify accessibility features on ground'']"
    by (simp only: w buildWarnings_tagCount hazardWarning_text cautionWarning_text)
  have b: "warnings r =
            [[CHR 0xE2, CHR 0x9A, CHR 0xA0, CHR 0xEF, CHR 0xB8, CHR 0x8F]
               @ '' 2 accessibility barriers on this route'',
             [CHR 0xF0, CHR 0x9F, CHR 0x94, CHR 0xB6] @ '' 1 caution area ''
               @ [CHR 0xE2, CHR 0x80, CHR 0x94] @ '' proceed with care'',
             ''Verify accessibility features on ground'']"
    if "?hc = 2 \<and> ?cc = 1"
  proof -
    from that have h2: "?hc = 2" and c1: "?cc = 1" by simp_all
    have "warnings r = [hazardWarning 2, cautionWarning 1, ''Verify accessibility features on ground'']"
      by (simp only: w buildWarnings_tagCount h2 c1) simp
    then show ?thesis by (simp only: hazardWarning_2 cautionWarning_1)
  qed
  show ?thesis
    by (intro exI [of _ r] exI [of _ "showNat ?hc"] exI [of _ "showNat ?cc"] conjI impI)
       (rule r h c a b, assumption?)+
qed

lemma chunkStride_10: "chunkStride 10 = 4"
  by (simp add: chunkStride_def targetCount_def)

lemma chunkSlices_path10:
  "chunkSlices path10 4 0 =
     [[(0, 0), (0, 0), (0, 0), (0, 0), (0, 0)],
      [(0, 0), (0, 0), (0, 0), (0, 0), (0, 0)],
      [(0, 0), (0, 90)]]"
proof -
  have l: "length path10 = 10" by (simp add: path10_def)
  have "chunkSlices path10 4 0 =
      map (\<lambda>k. slice path10 (0 + k * 4) (min (0 + k * 4 + 4 + 1) (length path10)))
        [0..<(length path10 - 1 - 0 + 4 - 1) div 4]"
    by (rule chunkSlices_map) simp
  also have "(length path10 - 1 - 0 + 4 - 1) div 4 = 3" by (simp add: l)
  finally show ?thesis
    by (simp add: upt_0_3 l) (simp add: slice_def path10_def)
qed

lemma classify_origin_chunk:
  "classifySeg [(0, 0), (0, 0), (0, 0), (0, 0), (0, 0)] [farCaution, originHazard] = Hazard"
  by (simp add: farCaution_def originHazard_def haversine_quarter_far)

lemma classify_last_chunk:
  "classifySeg [(0, 0), (0, 90)] [farCaution, originHazard] = Caution"
  by (simp add: farCaution_def originHazard_def haversine_quarter_far)

lemma tags_path10:
  "map accessibility (routeSegments path10 [farCaution, originHazard]) = [Hazard, Hazard, Caution]"
proof -
  have l: "length path10 = 10" by (simp add: path10_def)
  have "routeSegments path10 [farCaution, originHazard]
      = map (mkSegment [farCaution, originHazard]) (chunkSlices path10 4 0)"
    by (simp only: routeSegments_def l chunkStride_10)
  then show ?thesis
    by (simp only: chunkSlices_path10 list.map accessibility_mkSegment
        classify_origin_chunk classify_last_chunk)
qed

lemma buildResult_segments:
  assumes "buildResult coords d hazards = Some r"
  shows "segments r = routeSegments coords hazards"
proof -
  obtain r' where r': "buildResult coords d hazards = Some r'"
      "segments r' = routeSegments coords hazards"
    using buildResult_Some [of coords d hazards] by blast
  from assms r'(1) have "r' = r" by (simp only: option.inject)
  with r'(2) show ?thesis by (simp only:)
qed

lemma tagCount_tags:
  "tagCount tag segs = length (filter (\<lambda>a. a = tag) (map accessibility segs))"
  by (simp add: tagCount_def filter_map comp_def)

lemma tags_originPath:
  "map accessibility (routeSegments originPath [originHazard]) = [Hazard]"
proof -
  have l: "length originPath = 2" by (simp add: originPath_def)
  have c: "chunkStride 2 = 1" by (simp add: chunkStride_def targetCount_def)
  have "chunkSlices originPath 1 0 =
      map (\<lambda>k. slice originPath (0 + k * 1) (min (0 + k * 1 + 1 + 1) (length originPath)))
        [0..<(length originPath - 1 - 0 + 1 - 1) div 1]"
    by (rule chunkSlices_map) simp
  also have "(length originPath - 1 - 0 + 1 - 1) div 1 = 1" by (simp add: l)
  finally have cs: "chunkSlices originPath 1 0 = [[(0, 0), (0, 0)]]"
    by (simp add: l) (simp add: slice_def originPath_def)
  have "classifySeg [(0, 0), (0, 0)] [originHazard] = Hazard"
    by (simp add: originHazard_def)
  then show ?thesis
    by (simp only: routeSegments_def l c cs list.map accessibility_mkSegment)
qed

lemma tags_no_hazards:
  "filter (\<lambda>a. a = Hazard) (map accessibility (routeSegments coords [])) = []"
  "filter (\<lambda>a. a = Caution) (map accessibility (routeSegments coords [])) = []"
  by (simp_all add: routeSegments_def filter_map comp_def)

theorem C7_warnings_order_witness:
  "(\<exists>r. buildResult path10 5000000 [farCaution, originHazard] = Some r
      \<and> map accessibility (segments r) = [Hazard, Hazard, Caution]
      \<and> tagCount Hazard (segments r) = 2 \<and> tagCount Caution (segments r) = 1
      \<and> warnings r =
            [[CHR 0xE2, CHR 0x9A, CHR 0xA0, CHR 0xEF, CHR 0xB8, CHR 0x8F]
               @ '' 2 accessibility barriers on this route'',
             [CHR 0xF0, CHR 0x9F, CHR 0x94, CHR 0xB6] @ '' 1 caution area ''
               @ [CHR 0xE2, CHR 0x80, CHR 0x94] @ '' proceed with care'',
             ''Verify accessibility features on ground''])
   \<and> (\<exists>r. buildResult originPath 0 [originHazard] = Some r
      \<and> tagCount Hazard (segments r) = 1 \<and> tagCount Caution (segments r) = 0
      \<and> warnings r =
            [[CHR 0xE2, CHR 0x9A, CHR 0xA0, CHR 0xEF, CHR 0xB8, CHR 0x8F]
               @ '' 1 accessibility barrier on this route'',
             ''Verify accessibility features on ground''])
   \<and> (\<exists>r. buildResult path7 620 [] = Some r
      \<and> tagCount Hazard (segments r) = 0 \<and> tagCount Caution (segments r) = 0
      \<and> warnings r = [''Verify accessibility features on ground''])"
proof -
  obtain r hs cs where r: "buildResult path10 5000000 [farCaution, originHazard] = Some r"
    and imp: "tagCount Hazard (segments r) = 2 \<and> tagCount Caution (segments r) = 1 \<longrightarrow>
          warnings r =
            [[CHR 0xE2, CHR 0x9A, CHR 0xA0, CHR 0xEF, CHR 0xB8, CHR 0x8F]
               @ '' 2 accessibility barriers on this route'',
             [CHR 0xF0, CHR 0x9F, CHR 0x94, CHR 0xB6] @ '' 1 caution area ''
               @ [CHR 0xE2, CHR 0x80, CHR 0x94] @ '' proceed with care'',
             ''Verify accessibility features on ground'']"
    using C7_warnings_order [of path10 5000000 "[farCaution, originHazard]"] by blast
  have s: "segments r = routeSegments path10 [farCaution, originHazard]"
    using r by (rule buildResult_segments)
  have t: "map accessibility (segments r) = [Hazard, Hazard, Caution]"
    by (simp only: s tags_path10)
  have h: "tagCount Hazard (segments r) = 2" unfolding tagCount_tags t by simp
  have c: "tagCount Caution (segments r) = 1" unfolding tagCount_tags t by simp
  have w: "warnings r =
            [[CHR 0xE2, CHR 0x9A, CHR 0xA0, CHR 0xEF, CHR 0xB8, CHR 0x8F]
               @ '' 2 accessibility barriers on this route'',
             [CHR 0xF0, CHR 0x9F, CHR 0x94, CHR 0xB6] @ '' 1 caution area ''
               @ [CHR 0xE2, CHR 0x80, CHR 0x94] @ '' proceed with care'',
             ''Verify accessibility features on ground'']"
    using imp h c by blast
  have A: "\<exists>r. buildResult path10 5000000 [farCaution, originHazard] = Some r
      \<and> map accessibility (segments r) = [Hazard, Hazard, Caution]
      \<and> tagCount Hazard (segments r) = 2 \<and> tagCount Caution (segments r) = 1
      \<and> warnings r =
            [[CHR 0xE2, CHR 0x9A, CHR 0xA0, CHR 0xEF, CHR 0xB8, CHR 0x8F]
               @ '' 2 accessibility barriers on this route'',
             [CHR 0xF0, CHR 0x9F, CHR 0x94, CHR 0xB6] @ '' 1 caution area ''
               @ [CHR 0xE2, CHR 0x80, CHR 0x94] @ '' proceed with care'',
             ''Verify accessibility features on ground'']"
    by (intro exI [of _ r] conjI) (rule r t h c w)+

  obtain q hq cq where q: "buildResult originPath 0 [originHazard] = Some q"
    and dq: "isDecimal hq (tagCount Hazard (segments q))"
    and wq: "warnings q =
         (if 0 < tagCount Hazard (segments q)
          then [[CHR 0xE2, CHR 0x9A, CHR 0xA0, CHR 0xEF, CHR 0xB8, CHR 0x8F] @ '' '' @ hq
                  @ '' accessibility barrier''
                  @ (if 1 < tagCount Hazard (segments q) then ''s'' else [])
                  @ '' on this route'']
          else [])
         @ (if 0 < tagCount Caution (segments q)
            then [[CHR 0xF0, CHR 0x9F, CHR 0x94, CHR 0xB6] @ '' '' @ cq
                    @ '' caution area''
                    @ (if 1 < tagCount Caution (segments q) then ''s'' else [])
                    @ '' '' @ [CHR 0xE2, CHR 0x80, CHR 0x94] @ '' proceed with care'']
            else [])
         @ [''Verify accessibility features on ground'']"
    using C7_warnings_order [of originPath 0 "[originHazard]"] by blast
  have sq: "segments q = routeSegments originPath [originHazard]"
    using q by (rule buildResult_segments)
  have tq: "map accessibility (segments q) = [Hazard]" by (simp only: sq tags_originPath)
  have hq1: "tagCount Hazard (segments q) = 1" unfolding tagCount_tags tq by simp
  have cq0: "tagCount Caution (segments q) = 0" unfolding tagCount_tags tq by simp
  have "hq = showNat 1" using dq unfolding hq1 by (rule isDecimal_unique)
  then have hq': "hq = ''1''" by (simp add: showNat.simps)
  have wq': "warnings q =
            [[CHR 0xE2, CHR 0x9A, CHR 0xA0, CHR 0xEF, CHR 0xB8, CHR 0x8F]
               @ '' 1 accessibility barrier on this route'',
             ''Verify accessibility features on ground'']"
    using wq unfolding hq1 cq0 hq' by simp
  have B: "\<exists>r. buildResult originPath 0 [originHazard] = Some r
      \<and> tagCount Hazard (segments r) = 1 \<and> tagCount Caution (segments r) = 0
      \<and> warnings r =
            [[CHR 0xE2, CHR 0x9A, CHR 0xA0, CHR 0xEF, CHR 0xB8, CHR 0x8F]
               @ '' 1 accessibility barrier on this route'',
             ''Verify accessibility features on ground'']"
    by (intro exI [of _ q] conjI) (rule q hq1 cq0 wq')+

  obtain p hp cp where p: "buildResult path7 620 [] = Some p"
    and wp: "warnings p =
         (if 0 < tagCount Hazard (segments p)
          then [[CHR 0xE2, CHR 0x9A, CHR 0xA0, CHR 0xEF, CHR 0xB8, CHR 0x8F] @ '' '' @ hp
                  @ '' accessibility barrier''
                  @ (if 1 < tagCount Hazard (segments p) then ''s'' else [])
                  @ '' on this route'']
          else [])
         @ (if 0 < tagCount Caution (segments p)
            then [[CHR 0xF0, CHR 0x9F, CHR 0x94, CHR 0xB6] @ '' '' @ cp
                    @ '' caution area''
                    @ (if 1 < tagCount Caution (segments p) then ''s'' else [])
                    @ '' '' @ [CHR 0xE2, CHR 0x80, CHR 0x94] @ '' proceed with care'']
            else [])
         @ [''Verify accessibility features on ground'']"
    using C7_warnings_order [of path7 620 "[]"] by blast
  have sp: "segments p = routeSegments path7 []" using p by (rule buildResult_segments)
  have hp0: "tagCount Hazard (segments p) = 0"
    unfolding tagCount_tags sp by (simp only: tags_no_hazards list.size)
  have cp0: "tagCount Caution (segments p) = 0"
    unfolding tagCount_tags sp by (simp only: tags_no_hazards list.size)
  have wp': "warnings p = [''Verify accessibility features on ground'']"
    using wp unfolding hp0 cp0 by simp
  have C: "\<exists>r. buildResult path7 620 [] = Some r
      \<and> tagCount Hazard (segments r) = 0 \<and> tagCount Caution (segments r) = 0
      \<and> warnings r = [''Verify accessibility features on ground'']"
    by (intro exI [of _ p] conjI) (rule p hp0 cp0 wp')+
  from A B C show ?thesis by (intro conjI)
qed

subsection \<open>The fallback path\<close>

lemma pushLeg_map:
  "pushLeg f i coords = coords @ map (\<lambda>j. f (real j / 12)) [i..<13]"
proof (induction f i coords rule: pushLeg.induct)
  case (1 f i coords)
  show ?case
  proof (cases "i \<le> 12")
    case True
    then have u: "[i..<13] = i # [i + 1..<13]" by (simp add: upt_conv_Cons)
    have "pushLeg f i coords = pushLeg f (i + 1) (coords @ [f (real i / 12)])"
      using True by (subst pushLeg.simps) simp
    also have "\<dots> = (coords @ [f (real i / 12)]) @ map (\<lambda>j. f (real j / 12)) [i + 1..<13]"
      using True by (rule "1.IH")
    finally show ?thesis by (simp only: u list.map append_assoc append_Cons append_Nil)
  next
    case False
    then have "[i..<13] = []" by simp
    moreover have "pushLeg f i coords = coords" using False by (subst pushLeg.simps) simp
    ultimately show ?thesis by simp
  qed
qed

lemma fallbackCoords_map:
  "fallbackCoords start endp =
     map (\<lambda>j. (ll_lat start + ((ll_lat start + ll_lat endp) / 2 - ll_lat start) * (real j / 12),
                ll_lng start)) [0..<13]
     @ map (\<lambda>j. ((ll_lat start + ll_lat endp) / 2,
                  ll_lng start + (ll_lng endp - ll_lng start) * (real j / 12))) [0..<13]
     @ [(ll_lat endp, ll_lng endp)]"
  by (simp only: fallbackCoords_def Let_def pushLeg_map append_Nil append_assoc)

lemma fallbackCoords_length: "length (fallbackCoords start endp) = 27"
  by (simp add: fallbackCoords_map)

lemma fallbackCoords_last: "last (fallbackCoords start endp) = (ll_lat endp, ll_lng endp)"
  by (simp add: fallbackCoords_map)

lemma fallbackCoords_hd: "hd (fallbackCoords start endp) = (ll_lat start, ll_lng start)"
proof -
  have "[0..<13] = 0 # [1..<13]" by (simp add: upt_conv_Cons)
  then show ?thesis by (simp add: fallbackCoords_map)
qed

lemma distanceTo_haversine:
  "distanceTo a b = haversine (ll_lat a, ll_lng a) (ll_lat b, ll_lng b)"
proof -
  have e1: "(ll_lat b - ll_lat a) * (pi / 180) / 2 = (ll_lat b - ll_lat a) * pi / 180 / 2"
    by simp
  have e2: "(ll_lng b - ll_lng a) * (pi / 180) / 2 = (ll_lng b - ll_lng a) * pi / 180 / 2"
    by simp
  show ?thesis
    unfolding distanceTo_def haversine_def Let_def fst_conv snd_conv e1 e2
    by (simp add: power2_eq_square mult.assoc)
qed

lemma calcRoute_failure:
  "\<exists>r. calcRoute ProviderFailure start endp hazards = Some r
     \<and> segments r = routeSegments (fallbackCoords start endp) hazards
     \<and> totalDistance r = distanceTo start endp * 1.25"
proof -
  have "calcRoute ProviderFailure start endp hazards
      = buildResult (fallbackCoords start endp) (distanceTo start endp * 1.25) hazards"
    by (simp only: calcRoute_def provider.case)
  then show ?thesis
    using buildResult_Some [of "fallbackCoords start endp" "distanceTo start endp * 1.25" hazards]
    by metis
qed

text \<open>
  C4 (amended). When the routing provider fails, for \<open>start = (27.6196, 85.5385)\<close> and
  \<open>end = (27.6200, 85.5395)\<close> the route is built on the synthesized path, which starts at
  \<open>start\<close>, ends at \<open>end\<close> and has exactly 27 points (13 of each loop and \<open>end\<close>), and the
  reported distance is \<open>haversine(start, end) * 1.25\<close>.
\<close>

theorem C4_fallback_scenario:
  "\<exists>r. calcRoute ProviderFailure kuStart kuEnd hazards = Some r
     \<and> joinChunks (map coordinates (segments r)) = fallbackCoords kuStart kuEnd
     \<and> hd (fallbackCoords kuStart kuEnd) = (27.6196, 85.5385)
     \<and> last (fallbackCoords kuStart kuEnd) = (27.6200, 85.5395)
     \<and> length (fallbackCoords kuStart kuEnd) = 27
     \<and> totalDistance r = haversine (27.6196, 85.5385) (27.6200, 85.5395) * 1.25"
proof -
  obtain r where r: "calcRoute ProviderFailure kuStart kuEnd hazards = Some r"
      and s: "segments r = routeSegments (fallbackCoords kuStart kuEnd) hazards"
      and t: "totalDistance r = distanceTo kuStart kuEnd * 1.25"
    using calcRoute_failure [of kuStart kuEnd hazards] by blast
  have "2 \<le> length (fallbackCoords kuStart kuEnd)" by (simp add: fallbackCoords_length)
  then have j: "joinChunks (map coordinates (segments r)) = fallbackCoords kuStart kuEnd"
    unfolding s by (rule joinChunks_routeSegments)
  have h: "hd (fallbackCoords kuStart kuEnd) = (27.6196, 85.5385)"
    by (simp only: fallbackCoords_hd) (simp add: kuStart_def)
  have l: "last (fallbackCoords kuStart kuEnd) = (27.6200, 85.5395)"
    by (simp only: fallbackCoords_last) (simp add: kuEnd_def)
  have n: "length (fallbackCoords kuStart kuEnd) = 27" by (rule fallbackCoords_length)
  have d: "totalDistance r = haversine (27.6196, 85.5385) (27.6200, 85.5395) * 1.25"
    unfolding t distanceTo_haversine by (simp add: kuStart_def kuEnd_def)
  show ?thesis
    by (intro exI [of _ r] conjI) (rule r j h l n d)+
qed

theorem C4_point_count_counterexample:
  "length (fallbackCoords kuStart kuEnd) \<noteq> 26"
  by (simp add: fallbackCoords_length)

subsection \<open>Report creation\<close>

text \<open>
  C9 (amended). For every report-creation request in which the issue type, the
  description, the latitude or the longitude is missing (absent, null, the empty string
  or the number 0), \<open>createReport\<close> answers 400 \<open>Missing required fields\<close> and issues no
  query. A request whose four fields are all present passes this check whether or not
  its coordinates are numeric: one INSERT is issued with the coordinates as received,
  and the answer is 201 with the row, or 500 \<open>Failed to create report\<close> when the query
  throws.
\<close>

theorem C9_missing_fields_rejected:
  "(\<not> truthy (b_issue_type req) \<or> \<not> truthy (b_description req)
      \<or> \<not> truthy (b_lat req) \<or> \<not> truthy (b_lng req)
     \<longrightarrow> createReport req outcome = ([], Response 400 (ErrorBody ''Missing required fields'')))
   \<and> (truthy (b_issue_type req) \<and> truthy (b_description req)
      \<and> truthy (b_lat req) \<and> truthy (b_lng req)
     \<longrightarrow> (\<exists>user_id photo_url.
           fst (createReport req outcome)
             = [[user_id, b_issue_type req, b_description req, photo_url, b_lng req, b_lat req]])
         \<and> snd (createReport req outcome)
             = (case outcome of
                  QueryRows row \<Rightarrow> Response 201 (ReportBody row)
                | QueryThrows \<Rightarrow> Response 500 (ErrorBody ''Failed to create report'')))"
proof (intro conjI impI)
  assume "\<not> truthy (b_issue_type req) \<or> \<not> truthy (b_description req)
      \<or> \<not> truthy (b_lat req) \<or> \<not> truthy (b_lng req)"
  then show "createReport req outcome = ([], Response 400 (ErrorBody ''Missing required fields''))"
    unfolding createReport_def by (simp only: if_True)
next
  assume present: "truthy (b_issue_type req) \<and> truthy (b_description req)
      \<and> truthy (b_lat req) \<and> truthy (b_lng req)"
  then have guard: "\<not> (\<not> truthy (b_issue_type req) \<or> \<not> truthy (b_description req)
      \<or> \<not> truthy (b_lat req) \<or> \<not> truthy (b_lng req))"
    by simp
  show "\<exists>user_id photo_url.
           fst (createReport req outcome)
             = [[user_id, b_issue_type req, b_description req, photo_url, b_lng req, b_lat req]]"
    unfolding createReport_def Let_def
    by (cases outcome) (simp_all only: guard if_False query_outcome.case fst_conv, blast+)
  show "snd (createReport req outcome)
             = (case outcome of
                  QueryRows row \<Rightarrow> Response 201 (ReportBody row)
                | QueryThrows \<Rightarrow> Response 500 (ErrorBody ''Failed to create report''))"
    unfolding createReport_def Let_def
    by (cases outcome) (simp_all only: guard if_False query_outcome.case snd_conv)
qed

theorem C9_missing_fields_rejected_witness:
  "\<not> truthy (b_lat noLatRequest)
   \<and> createReport noLatRequest QueryThrows
       = ([], Response 400 (ErrorBody ''Missing required fields''))
   \<and> truthy (b_issue_type abcRequest) \<and> truthy (b_description abcRequest)
   \<and> truthy (b_lat abcRequest) \<and> truthy (b_lng abcRequest)
   \<and> snd (createReport abcRequest QueryThrows)
       = Response 500 (ErrorBody ''Failed to create report'')"
proof -
  have a: "\<not> truthy (b_lat noLatRequest)" by (simp add: noLatRequest_def)
  have b: "createReport noLatRequest QueryThrows
       = ([], Response 400 (ErrorBody ''Missing required fields''))"
    using C9_missing_fields_rejected [of noLatRequest QueryThrows] a by blast
  have t: "truthy (b_issue_type abcRequest)" "truthy (b_description abcRequest)"
      "truthy (b_lat abcRequest)" "truthy (b_lng abcRequest)"
    by (simp_all add: abcRequest_def)
  have c: "snd (createReport abcRequest QueryThrows)
       = Response 500 (ErrorBody ''Failed to create report'')"
    using C9_missing_fields_rejected [of abcRequest QueryThrows] t by simp
  show ?thesis by (intro conjI) (rule a b t c)+
qed

text \<open>
  The latitude \<^verbatim>\<open>"abc"\<close> is not rejected by the check: the INSERT is issued with it, and
  when the database rejects the statement the answer is the 500 of the \<^verbatim>\<open>catch\<close> block.
\<close>

theorem C9_non_numeric_counterexample:
  "createReport abcRequest QueryThrows
     = ([[Null, JStr ''pothole'', JStr ''deep pothole'', Null, JStr ''85.5385'', JStr ''abc'']],
        Response 500 (ErrorBody ''Failed to create report''))"
  by (simp add: createReport_def abcRequest_def Let_def)

end
